theory Spec2Isabelle
  imports Complex_Main "HOL-Library.List_Lexorder" "HOL-Library.Char_ord"
    "HOL-Library.Product_Lexorder" "HOL-Library.Multiset"
begin

section \<open>GAB Study: review scheduler and session picker\<close>

text \<open>
  A shallow embedding of \<^verbatim>\<open>src/logic/reviewScheduler.ts\<close>,
  \<^verbatim>\<open>src/constants/categories.ts\<close> and \<^verbatim>\<open>src/logic/sessionPicker.ts\<close>.

  Conventions of the embedding:
  \<^item> a TypeScript \<^verbatim>\<open>number\<close> that holds a count, a stage, a duration in
    milliseconds or seconds is an \<open>int\<close> (the integral doubles, below \<open>2^53\<close>);
    a quotient of two such numbers is a \<open>rat\<close>;
  \<^item> an ISO timestamp is a \<open>string\<close>; \<^verbatim>\<open>String.prototype.localeCompare\<close>,
    the collation of the runtime's locale, is a parameter \<open>localeCompare\<close> of each
    function that calls it;
  \<^item> \<^verbatim>\<open>new Date()\<close> is a parameter of each function that reads the clock;
  \<^item> a \<^verbatim>\<open>Map\<close> is an association list in insertion order, read by \<open>map_of\<close>;
  \<^item> an exception is the \<open>Inl\<close> branch of a sum.
\<close>

subsection \<open>Data model (\<^verbatim>\<open>src/types/index.ts\<close>)\<close>

datatype Category = Table | Bar | Pie | Composite

text \<open>Only the fields of \<^verbatim>\<open>Problem\<close> that the logic reads are kept, and its
  \<^verbatim>\<open>targetTimeSec\<close>, which the logic never reads.\<close>

record Problem =
  Problem_id :: string
  Problem_category :: Category
  difficulty :: int
  Problem_targetTimeSec :: int

record Attempt =
  Attempt_id :: string
  Attempt_problemId :: string
  answeredAt :: string
  isCorrect :: bool
  selectedIndex :: int
  timeMs :: int

record ReviewQueueItem =
  problemId :: string
  nextReviewAt :: string
  stage :: int

datatype js_error = RangeError

subsection \<open>Category constants (\<^verbatim>\<open>src/constants/categories.ts\<close>)\<close>

text \<open>The display labels of \<^verbatim>\<open>CategoryInfo\<close> are not ASCII and are left out.\<close>

record CategoryInfo =
  CategoryInfo_id :: Category
  icon :: string
  targetTimeSec :: int
  color :: string

definition CATEGORIES :: "CategoryInfo list" where
  "CATEGORIES =
    [\<lparr>CategoryInfo_id = Table, icon = ''grid-outline'', targetTimeSec = 55, color = ''#2563EB''\<rparr>,
     \<lparr>CategoryInfo_id = Bar, icon = ''bar-chart-outline'', targetTimeSec = 45, color = ''#7C3AED''\<rparr>,
     \<lparr>CategoryInfo_id = Pie, icon = ''pie-chart-outline'', targetTimeSec = 40, color = ''#D97706''\<rparr>,
     \<lparr>CategoryInfo_id = Composite, icon = ''analytics-outline'', targetTimeSec = 55, color = ''#16A34A''\<rparr>]"

text \<open>\<^verbatim>\<open>Object.fromEntries\<close>: a later entry overwrites an earlier one with the same key.\<close>

definition fromEntries :: "('k \<times> 'v) list \<Rightarrow> ('k \<rightharpoonup> 'v)" where
  "fromEntries es = foldl (\<lambda>m (k, v). m(k \<mapsto> v)) Map.empty es"

definition CATEGORY_MAP :: "Category \<rightharpoonup> CategoryInfo" where
  "CATEGORY_MAP = fromEntries (map (\<lambda>c. (CategoryInfo_id c, c)) CATEGORIES)"

definition REVIEW_INTERVALS_DAYS :: "int list" where
  "REVIEW_INTERVALS_DAYS = [1, 3, 7, 14, 30]"

subsection \<open>Review scheduler (\<^verbatim>\<open>src/logic/reviewScheduler.ts\<close>)\<close>

text \<open>Reading an array at a number: \<^verbatim>\<open>undefined\<close> (here \<open>None\<close>) outside
  \<open>0 .. length - 1\<close>.\<close>

definition js_index :: "'a list \<Rightarrow> int \<Rightarrow> 'a option" where
  "js_index xs i = (if 0 \<le> i \<and> i < int (length xs) then Some (xs ! nat i) else None)"

text \<open>\<^verbatim>\<open>currentItem?.stage ?? 0\<close>.\<close>

definition currentStage :: "ReviewQueueItem option \<Rightarrow> int" where
  "currentStage currentItem = (case currentItem of None \<Rightarrow> 0 | Some item \<Rightarrow> stage item)"

text \<open>The stage walk of \<^verbatim>\<open>computeNextReview\<close> (the \<^verbatim>\<open>if (isCorrect)\<close> statement).\<close>

definition newStage :: "bool \<Rightarrow> ReviewQueueItem option \<Rightarrow> int" where
  "newStage correct currentItem =
    (if correct then currentStage currentItem + 1
     else max (currentStage currentItem - 1) 0)"

text \<open>
  \<^verbatim>\<open>computeNextReview\<close>. The parameter \<open>isoAfterDays d\<close> stands for
  \<^verbatim>\<open>const n = new Date(); n.setDate(n.getDate() + d); n.toISOString()\<close>: the
  ISO string of the local calendar date \<open>d\<close> days after now.
  When the table lookup is \<^verbatim>\<open>undefined\<close>, \<^verbatim>\<open>getDate() + undefined\<close> is
  \<^verbatim>\<open>NaN\<close>, \<^verbatim>\<open>setDate(NaN)\<close> makes the date invalid, and
  \<^verbatim>\<open>toISOString()\<close> of an invalid date throws a \<^verbatim>\<open>RangeError\<close>.
\<close>

definition computeNextReview ::
  "(int \<Rightarrow> string) \<Rightarrow> string \<Rightarrow> bool \<Rightarrow> ReviewQueueItem option \<Rightarrow> js_error + ReviewQueueItem"
where
  "computeNextReview isoAfterDays pId correct currentItem =
    (let stage' = newStage correct currentItem;
         intervalIndex = min stage' (int (length REVIEW_INTERVALS_DAYS) - 1)
     in case js_index REVIEW_INTERVALS_DAYS intervalIndex of
          None \<Rightarrow> Inl RangeError
        | Some intervalDays \<Rightarrow>
            Inr \<lparr>problemId = pId, nextReviewAt = isoAfterDays intervalDays, stage = stage'\<rparr>)"

text \<open>
  The caller's loop over the answers to one question: each answer replaces the
  question's entry by the one \<open>computeNextReview\<close> returns; an exception ends it.
\<close>

fun answerAll ::
  "(int \<Rightarrow> string) \<Rightarrow> string \<Rightarrow> bool list \<Rightarrow> ReviewQueueItem option
    \<Rightarrow> js_error + ReviewQueueItem option"
where
  "answerAll isoAfterDays pId [] entry = Inr entry"
| "answerAll isoAfterDays pId (correct # answers) entry =
    (case computeNextReview isoAfterDays pId correct entry of
       Inl e \<Rightarrow> Inl e
     | Inr entry' \<Rightarrow> answerAll isoAfterDays pId answers (Some entry'))"

subsection \<open>Target times (\<^verbatim>\<open>src/logic/sessionPicker.ts\<close>)\<close>

text \<open>\<^verbatim>\<open>CATEGORY_MAP[category]?.targetTimeSec ?? 50\<close>, twice in the source.\<close>

definition estimateSolveSeconds :: "Category \<Rightarrow> int" where
  "estimateSolveSeconds c = (case CATEGORY_MAP c of None \<Rightarrow> 50 | Some info \<Rightarrow> targetTimeSec info)"

definition targetTimeForCategory :: "Category \<Rightarrow> int" where
  "targetTimeForCategory c = (case CATEGORY_MAP c of None \<Rightarrow> 50 | Some info \<Rightarrow> targetTimeSec info)"

subsection \<open>Arrays, maps and strings of the runtime\<close>

text \<open>
  \<^verbatim>\<open>Array.prototype.sort(cmp)\<close> is a stable sort: \<open>a\<close> stays before \<open>b\<close>
  unless \<open>cmp a b > 0\<close>. It is modelled as the stable insertion sort; all
  stable sorts agree for a comparator that compares keys of a linear order, as
  the numeric comparators of the source do, and \<open>localeCompare\<close> on the
  timestamps the application writes.
\<close>

fun js_insert :: "('a \<Rightarrow> 'a \<Rightarrow> 'c::{zero,ord}) \<Rightarrow> 'a \<Rightarrow> 'a list \<Rightarrow> 'a list" where
  "js_insert cmp x [] = [x]"
| "js_insert cmp x (y # ys) = (if cmp x y \<le> 0 then x # y # ys else y # js_insert cmp x ys)"

definition js_sort :: "('a \<Rightarrow> 'a \<Rightarrow> 'c::{zero,ord}) \<Rightarrow> 'a list \<Rightarrow> 'a list" where
  "js_sort cmp xs = foldr (js_insert cmp) xs []"

text \<open>\<^verbatim>\<open>xs.slice(0, n)\<close>: a negative \<open>n\<close> counts from the end of the array.\<close>

definition js_slice0 :: "'a list \<Rightarrow> int \<Rightarrow> 'a list" where
  "js_slice0 xs n = take (nat (if n < 0 then int (length xs) + n else n)) xs"

text \<open>\<^verbatim>\<open>Map.prototype.set\<close>: an existing key keeps its place, a new key goes last.\<close>

fun Map_set :: "('k \<times> 'v) list \<Rightarrow> 'k \<Rightarrow> 'v \<Rightarrow> ('k \<times> 'v) list" where
  "Map_set [] k v = [(k, v)]"
| "Map_set ((k', v') # m) k v = (if k' = k then (k, v) # m else (k', v') # Map_set m k v)"

text \<open>\<^verbatim>\<open>Math.round\<close> and \<^verbatim>\<open>Math.ceil\<close> of a quotient.\<close>

definition Math_round :: "rat \<Rightarrow> int" where
  "Math_round x = \<lfloor>x + 1 / 2\<rfloor>"

definition Math_ceil :: "rat \<Rightarrow> int" where
  "Math_ceil x = \<lceil>x\<rceil>"

subsection \<open>Quick session (\<^verbatim>\<open>pickQuickSession\<close>)\<close>

text \<open>Pool 1: problems with a due review, earliest \<^verbatim>\<open>nextReviewAt\<close> first.\<close>

definition duePool ::
  "(string \<Rightarrow> string \<Rightarrow> int) \<Rightarrow> Problem list \<Rightarrow> ReviewQueueItem list \<Rightarrow> Problem list"
where
  "duePool localeCompare allProblems dueReviews =
    (let dueSet = set (map problemId dueReviews) in
     js_sort
       (\<lambda>a b.
          let rA = find (\<lambda>r. problemId r = Problem_id a) dueReviews;
              rB = find (\<lambda>r. problemId r = Problem_id b) dueReviews
          in localeCompare (case rA of None \<Rightarrow> '''' | Some r \<Rightarrow> nextReviewAt r)
               (case rB of None \<Rightarrow> '''' | Some r \<Rightarrow> nextReviewAt r))
       (filter (\<lambda>p. Problem_id p \<in> dueSet) allProblems))"

text \<open>Pool 2: latest attempt correct and over the category's target time, slowest first.\<close>

definition slowPool :: "Problem list \<Rightarrow> (string \<times> Attempt) list \<Rightarrow> Problem list" where
  "slowPool allProblems latestAttempts =
    js_sort
      (\<lambda>a b.
         let aTime = (case map_of latestAttempts (Problem_id a) of None \<Rightarrow> 0 | Some x \<Rightarrow> timeMs x);
             bTime = (case map_of latestAttempts (Problem_id b) of None \<Rightarrow> 0 | Some x \<Rightarrow> timeMs x)
         in bTime - aTime)
      (filter
        (\<lambda>p. case map_of latestAttempts (Problem_id p) of
               None \<Rightarrow> False
             | Some a \<Rightarrow> isCorrect a \<and> timeMs a > targetTimeForCategory (Problem_category p) * 1000)
        allProblems)"

text \<open>Pool 3: latest attempt incorrect, most recent first.\<close>

definition wrongRecentPool ::
  "(string \<Rightarrow> string \<Rightarrow> int) \<Rightarrow> Problem list \<Rightarrow> (string \<times> Attempt) list \<Rightarrow> Problem list"
where
  "wrongRecentPool localeCompare allProblems latestAttempts =
    js_sort
      (\<lambda>a b.
         let aDate = (case map_of latestAttempts (Problem_id a) of None \<Rightarrow> '''' | Some x \<Rightarrow> answeredAt x);
             bDate = (case map_of latestAttempts (Problem_id b) of None \<Rightarrow> '''' | Some x \<Rightarrow> answeredAt x)
         in localeCompare bDate aDate)
      (filter
        (\<lambda>p. case map_of latestAttempts (Problem_id p) of
               None \<Rightarrow> False
             | Some a \<Rightarrow> \<not> isCorrect a)
        allProblems)"

text \<open>Pool 4: never attempted, easiest first.\<close>

definition unseenPool :: "Problem list \<Rightarrow> (string \<times> Attempt) list \<Rightarrow> Problem list" where
  "unseenPool allProblems latestAttempts =
    js_sort (\<lambda>a b. difficulty a - difficulty b)
      (filter (\<lambda>p. map_of latestAttempts (Problem_id p) = None) allProblems)"

text \<open>The variables of the selection loop.\<close>

record pick_state =
  picked :: "Problem list"
  pickedSet :: "string set"
  estimatedTime :: int

text \<open>The inner loop over one pool: \<open>Inl\<close> is the \<^verbatim>\<open>return picked\<close> inside the
  loop, \<open>Inr\<close> the state when the pool is exhausted.\<close>

fun walkPool :: "int \<Rightarrow> Problem list \<Rightarrow> pick_state \<Rightarrow> Problem list + pick_state" where
  "walkPool targetSeconds [] s = Inr s"
| "walkPool targetSeconds (p # pool) s =
    (if Problem_id p \<in> pickedSet s then walkPool targetSeconds pool s
     else
       let s' = \<lparr>picked = picked s @ [p],
                 pickedSet = insert (Problem_id p) (pickedSet s),
                 estimatedTime = estimatedTime s + estimateSolveSeconds (Problem_category p)\<rparr>
       in if estimatedTime s' \<ge> targetSeconds then Inl (picked s')
          else walkPool targetSeconds pool s')"

text \<open>The outer loop over the pools, and the final \<^verbatim>\<open>return picked\<close>.\<close>

fun walkPools :: "int \<Rightarrow> Problem list list \<Rightarrow> pick_state \<Rightarrow> Problem list" where
  "walkPools targetSeconds [] s = picked s"
| "walkPools targetSeconds (pool # pools) s =
    (case walkPool targetSeconds pool s of
       Inl result \<Rightarrow> result
     | Inr s' \<Rightarrow> walkPools targetSeconds pools s')"

definition pickQuickSession ::
  "(string \<Rightarrow> string \<Rightarrow> int) \<Rightarrow> int \<Rightarrow> Problem list \<Rightarrow> (string \<times> Attempt) list
    \<Rightarrow> ReviewQueueItem list \<Rightarrow> Problem list"
where
  "pickQuickSession localeCompare targetSeconds allProblems latestAttempts dueReviews =
    (let due = duePool localeCompare allProblems dueReviews;
         slow = slowPool allProblems latestAttempts;
         wrongRecent = wrongRecentPool localeCompare allProblems latestAttempts;
         unseen = unseenPool allProblems latestAttempts;
         pools = [due, slow, wrongRecent, unseen]
     in walkPools targetSeconds pools \<lparr>picked = [], pickedSet = {}, estimatedTime = 0\<rparr>)"

subsection \<open>Review, speed and weakness sessions\<close>

text \<open>An absent \<^verbatim>\<open>maxCount\<close> (\<open>None\<close>) takes the default of the signature.\<close>

definition pickReviewSession ::
  "(string \<Rightarrow> string \<Rightarrow> int) \<Rightarrow> Problem list \<Rightarrow> (string \<times> Attempt) list
    \<Rightarrow> ReviewQueueItem list \<Rightarrow> int option \<Rightarrow> Problem list"
where
  "pickReviewSession localeCompare allProblems latestAttempts dueReviews maxCountArg =
    (let maxCount = (case maxCountArg of None \<Rightarrow> 10 | Some n \<Rightarrow> n);
         dueSet = set (map problemId dueReviews);
         candidates =
           js_sort
             (\<lambda>a b.
                let aDue = (if Problem_id a \<in> dueSet then 0 else 1 :: int);
                    bDue = (if Problem_id b \<in> dueSet then 0 else 1 :: int)
                in if aDue \<noteq> bDue then aDue - bDue
                   else
                     let aDate = (case map_of latestAttempts (Problem_id a) of
                                    None \<Rightarrow> '''' | Some x \<Rightarrow> answeredAt x);
                         bDate = (case map_of latestAttempts (Problem_id b) of
                                    None \<Rightarrow> '''' | Some x \<Rightarrow> answeredAt x)
                     in localeCompare aDate bDate)
             (filter
               (\<lambda>p. Problem_id p \<in> dueSet \<or>
                  (case map_of latestAttempts (Problem_id p) of
                     None \<Rightarrow> False
                   | Some a \<Rightarrow> \<not> isCorrect a))
               allProblems)
     in js_slice0 candidates maxCount)"

definition pickSpeedSession ::
  "Problem list \<Rightarrow> (string \<times> Attempt) list \<Rightarrow> int option \<Rightarrow> Problem list"
where
  "pickSpeedSession allProblems latestAttempts maxCountArg =
    (let maxCount = (case maxCountArg of None \<Rightarrow> 10 | Some n \<Rightarrow> n) in
     js_slice0
       (js_sort
         (\<lambda>a b.
            let aTime = (case map_of latestAttempts (Problem_id a) of None \<Rightarrow> 0 | Some x \<Rightarrow> timeMs x);
                bTime = (case map_of latestAttempts (Problem_id b) of None \<Rightarrow> 0 | Some x \<Rightarrow> timeMs x)
            in bTime - aTime)
         (filter
           (\<lambda>p. case map_of latestAttempts (Problem_id p) of
                  None \<Rightarrow> False
                | Some a \<Rightarrow> isCorrect a \<and> timeMs a > targetTimeForCategory (Problem_category p) * 1000)
           allProblems))
       maxCount)"

text \<open>
  The scoring callback of \<^verbatim>\<open>pickWeaknessTest\<close>; \<open>a\<close> is the problem's latest
  attempt. The score is a quotient by 1000, hence a \<open>rat\<close>.
\<close>

definition scoreOf :: "Problem \<Rightarrow> Attempt \<Rightarrow> rat" where
  "scoreOf p a =
    (let score0 = 0;
         score1 = (if \<not> isCorrect a then score0 + 10 else score0);
         overTime = timeMs a - targetTimeForCategory (Problem_category p) * 1000
     in if overTime > 0 then score1 + of_int overTime / 1000 else score1)"

text \<open>The filter keeps the problems with an attempt, so \<^verbatim>\<open>latestAttempts.get(p.id)!\<close>
  is defined in the callback of \<^verbatim>\<open>map\<close>.\<close>

definition pickWeaknessTest ::
  "Problem list \<Rightarrow> (string \<times> Attempt) list \<Rightarrow> int option \<Rightarrow> Problem list"
where
  "pickWeaknessTest allProblems latestAttempts countArg =
    (let count = (case countArg of None \<Rightarrow> 20 | Some n \<Rightarrow> n);
         scored =
           js_sort (\<lambda>a b. snd b - snd a)
             (List.map_filter
               (\<lambda>p. case map_of latestAttempts (Problem_id p) of
                      None \<Rightarrow> None
                    | Some a \<Rightarrow> Some (p, scoreOf p a))
               allProblems)
     in map fst (js_slice0 scored count))"

subsection \<open>Recommendations (\<^verbatim>\<open>generateRecommendations\<close>)\<close>

text \<open>
  The titles and reasons are template strings in Japanese; each is kept as its
  template with the interpolated values. \<open>CatLabel\<close> is the label \<^verbatim>\<open>catInfo\<close>.
\<close>

datatype RecommendationType = TypeReview | TypeSpeed | TypeCategoryWeak | TypeDrill

datatype CatLabel = LabelTable | LabelBar | LabelPie | LabelComposite

datatype RecTitle = ReviewDrillTitle int | SpeedTitle int | CategoryWeakTitle CatLabel

datatype RecReason = DueReason int | SlowReason | AccuracyReason CatLabel int

record Recommendation =
  title :: RecTitle
  reason :: RecReason
  rec_type :: RecommendationType
  estimatedMinutes :: int
  rec_category :: "Category option"

record CategoryTally =
  tally_correct :: int
  tally_total :: int

text \<open>
  \<^verbatim>\<open>new Date(r.nextReviewAt) <= new Date()\<close>. \<open>dateValue\<close> is the time value of
  \<^verbatim>\<open>new Date(s)\<close>, \<open>None\<close> for an invalid date (whose comparison is false);
  \<open>now\<close> is the time value of \<^verbatim>\<open>new Date()\<close>, read once for the call.
\<close>

definition dueNow :: "(string \<Rightarrow> int option) \<Rightarrow> int \<Rightarrow> ReviewQueueItem \<Rightarrow> bool" where
  "dueNow dateValue now r = (case dateValue (nextReviewAt r) of None \<Rightarrow> False | Some t \<Rightarrow> t \<le> now)"

text \<open>The loop over \<^verbatim>\<open>latestAttempts\<close> that fills \<^verbatim>\<open>categoryAccuracy\<close>.\<close>

fun tallyCategories ::
  "Problem list \<Rightarrow> (string \<times> Attempt) list \<Rightarrow> (Category \<times> CategoryTally) list
    \<Rightarrow> (Category \<times> CategoryTally) list"
where
  "tallyCategories allProblems [] categoryAccuracy = categoryAccuracy"
| "tallyCategories allProblems ((k, attempt) # rest) categoryAccuracy =
    (case find (\<lambda>p. Problem_id p = Attempt_problemId attempt) allProblems of
       None \<Rightarrow> tallyCategories allProblems rest categoryAccuracy
     | Some problem \<Rightarrow>
         let entry = (case map_of categoryAccuracy (Problem_category problem) of
                        None \<Rightarrow> \<lparr>tally_correct = 0, tally_total = 0\<rparr>
                      | Some e \<Rightarrow> e);
             entry1 = entry\<lparr>tally_total := tally_total entry + 1\<rparr>;
             entry2 = (if isCorrect attempt
                       then entry1\<lparr>tally_correct := tally_correct entry1 + 1\<rparr> else entry1)
         in tallyCategories allProblems rest
              (Map_set categoryAccuracy (Problem_category problem) entry2))"

text \<open>The loop that finds \<^verbatim>\<open>worstCategory\<close>.\<close>

fun findWorst ::
  "(Category \<times> CategoryTally) list \<Rightarrow> (Category \<times> rat) option \<Rightarrow> (Category \<times> rat) option"
where
  "findWorst [] worstCategory = worstCategory"
| "findWorst ((c, stats) # rest) worstCategory =
    (if tally_total stats < 3 then findWorst rest worstCategory
     else
       let accuracy = of_int (tally_correct stats) / of_int (tally_total stats) in
       if (case worstCategory of None \<Rightarrow> True | Some w \<Rightarrow> accuracy < snd w)
       then findWorst rest (Some (c, accuracy))
       else findWorst rest worstCategory)"

definition generateRecommendations ::
  "(string \<Rightarrow> int option) \<Rightarrow> int \<Rightarrow> Problem list \<Rightarrow> (string \<times> Attempt) list
    \<Rightarrow> ReviewQueueItem list \<Rightarrow> Recommendation list"
where
  "generateRecommendations dateValue now allProblems latestAttempts dueReviews =
    (let recommendations0 = [];
         dueCount = int (length (filter (dueNow dateValue now) dueReviews));
         recommendations1 =
           (if dueCount > 0
            then recommendations0 @
              [\<lparr>title = ReviewDrillTitle (min dueCount 5),
                reason = DueReason dueCount,
                rec_type = TypeReview,
                estimatedMinutes = Math_ceil (of_int (dueCount * 50) / 60),
                rec_category = None\<rparr>]
            else recommendations0);
         slowCount = int (length (filter
           (\<lambda>p. case map_of latestAttempts (Problem_id p) of
                  None \<Rightarrow> False
                | Some a \<Rightarrow> isCorrect a \<and> timeMs a > targetTimeForCategory (Problem_category p) * 1000)
           allProblems));
         recommendations2 =
           (if slowCount > 0
            then recommendations1 @
              [\<lparr>title = SpeedTitle (min slowCount 3),
                reason = SlowReason,
                rec_type = TypeSpeed,
                estimatedMinutes = Math_ceil (of_int (min slowCount 3 * 45) / 60),
                rec_category = None\<rparr>]
            else recommendations1);
         categoryAccuracy = tallyCategories allProblems latestAttempts [];
         worstCategory = findWorst categoryAccuracy None
     in case worstCategory of
          None \<Rightarrow> recommendations2
        | Some (category, accuracy) \<Rightarrow>
            if accuracy < 7 / 10
            then
              let catInfo = (case category of Table \<Rightarrow> LabelTable | Bar \<Rightarrow> LabelBar
                             | Pie \<Rightarrow> LabelPie | Composite \<Rightarrow> LabelComposite)
              in recommendations2 @
                [\<lparr>title = CategoryWeakTitle catInfo,
                  reason = AccuracyReason catInfo (Math_round (accuracy * 100)),
                  rec_type = TypeCategoryWeak,
                  estimatedMinutes = 3,
                  rec_category = Some category\<rparr>]
            else recommendations2)"

subsection \<open>Notions of the specification\<close>

text \<open>
  The following definitions are not code of the repository: they word what the
  specification says about the pickers, so that the properties below can
  compare the code with it.
\<close>

text \<open>The invariant of the selection loop: \<open>pickedSet\<close> holds the ids of \<open>picked\<close>,
  and no id occurs twice.\<close>

definition pick_inv :: "pick_state \<Rightarrow> bool" where
  "pick_inv s = (pickedSet s = set (map Problem_id (picked s)) \<and> distinct (map Problem_id (picked s)))"

text \<open>"The first pool wins": the first occurrence of each id in a list, given the
  ids seen before.\<close>

fun firstOfEachId :: "string set \<Rightarrow> Problem list \<Rightarrow> Problem list" where
  "firstOfEachId seen [] = []"
| "firstOfEachId seen (p # ps) =
    (if Problem_id p \<in> seen then firstOfEachId seen ps
     else p # firstOfEachId (insert (Problem_id p) seen) ps)"

text \<open>Correctly answered, but over the category's target time (in milliseconds).\<close>

definition slowButCorrect :: "(string \<times> Attempt) list \<Rightarrow> Problem \<Rightarrow> bool" where
  "slowButCorrect latestAttempts p =
    (case map_of latestAttempts (Problem_id p) of
       None \<Rightarrow> False
     | Some a \<Rightarrow> isCorrect a \<and> targetTimeForCategory (Problem_category p) * 1000 < timeMs a)"

text \<open>The elapsed time of the latest attempt, 0 when there is none.\<close>

definition latestTimeMs :: "(string \<times> Attempt) list \<Rightarrow> Problem \<Rightarrow> int" where
  "latestTimeMs latestAttempts p =
    (case map_of latestAttempts (Problem_id p) of None \<Rightarrow> 0 | Some a \<Rightarrow> timeMs a)"

text \<open>The weakness score as the specification words it:
  (incorrect ? 10 : 0) + max(0, (elapsedMs - targetMs) / 1000).\<close>

definition weaknessScore :: "(string \<times> Attempt) list \<Rightarrow> Problem \<Rightarrow> rat" where
  "weaknessScore latestAttempts p =
    (case map_of latestAttempts (Problem_id p) of
       None \<Rightarrow> 0
     | Some a \<Rightarrow> (if isCorrect a then 0 else 10)
         + max 0 (of_int (timeMs a - targetTimeForCategory (Problem_category p) * 1000) / 1000))"

text \<open>Due for review: the problem has an entry in the due-review list.\<close>

definition dueForReview :: "ReviewQueueItem list \<Rightarrow> Problem \<Rightarrow> bool" where
  "dueForReview dueReviews p = (Problem_id p \<in> set (map problemId dueReviews))"

definition latestIncorrect :: "(string \<times> Attempt) list \<Rightarrow> Problem \<Rightarrow> bool" where
  "latestIncorrect latestAttempts p =
    (case map_of latestAttempts (Problem_id p) of None \<Rightarrow> False | Some a \<Rightarrow> \<not> isCorrect a)"

text \<open>
  The fixed-width output of \<^verbatim>\<open>Date.prototype.toISOString\<close>,
  \<^verbatim>\<open>YYYY-MM-DDTHH:mm:ss.sssZ\<close> (years 0000 to 9999): the timestamps the
  application writes. On these strings the order of the characters is the
  order of the instants.
\<close>

definition isDigit :: "char \<Rightarrow> bool" where
  "isDigit c = (CHR ''0'' \<le> c \<and> c \<le> CHR ''9'')"

definition isISOString :: "string \<Rightarrow> bool" where
  "isISOString s =
    (map (\<lambda>c. if isDigit c then CHR ''0'' else c) s = ''0000-00-00T00:00:00.000Z'')"

text \<open>
  What is assumed of the runtime's collation: on fixed-width ISO timestamps and
  the empty string (the \<^verbatim>\<open>?? ""\<close> default) it is the three-way comparison
  of the order of the characters, in which the empty string is least. Nothing is
  assumed on other strings.
\<close>

definition collatesTimestamps :: "(string \<Rightarrow> string \<Rightarrow> int) \<Rightarrow> bool" where
  "collatesTimestamps localeCompare =
    (\<forall>a b. (a = '''' \<or> isISOString a) \<and> (b = '''' \<or> isISOString b) \<longrightarrow>
       (localeCompare a b < 0) = (a < b) \<and> (localeCompare a b = 0) = (a = b))"

text \<open>Every recorded attempt carries a fixed-width ISO timestamp.\<close>

definition isoStamped :: "(string \<times> Attempt) list \<Rightarrow> bool" where
  "isoStamped latestAttempts = list_all (\<lambda>(k, a). isISOString (answeredAt a)) latestAttempts"

text \<open>The comparison of the order of the characters, a collation of the sample data.\<close>

definition codePointCompare :: "string \<Rightarrow> string \<Rightarrow> int" where
  "codePointCompare a b = (if a < b then - 1 else if a = b then 0 else 1)"

text \<open>The timestamp of the latest attempt, the empty string when there is none.\<close>

definition latestAnsweredAt :: "(string \<times> Attempt) list \<Rightarrow> Problem \<Rightarrow> string" where
  "latestAnsweredAt latestAttempts p =
    (case map_of latestAttempts (Problem_id p) of None \<Rightarrow> '''' | Some a \<Rightarrow> answeredAt a)"

text \<open>The order of a review session: a due problem before one that is not due,
  otherwise the older latest attempt first.\<close>

definition reviewOrder ::
  "ReviewQueueItem list \<Rightarrow> (string \<times> Attempt) list \<Rightarrow> Problem \<Rightarrow> Problem \<Rightarrow> bool" where
  "reviewOrder dueReviews latestAttempts p q =
    ((dueForReview dueReviews p \<and> \<not> dueForReview dueReviews q)
     \<or> (dueForReview dueReviews p = dueForReview dueReviews q
         \<and> latestAnsweredAt latestAttempts p \<le> latestAnsweredAt latestAttempts q))"

text \<open>The same order as a sort key, in the lexicographic order of pairs.\<close>

definition reviewKey ::
  "ReviewQueueItem list \<Rightarrow> (string \<times> Attempt) list \<Rightarrow> Problem \<Rightarrow> int \<times> string" where
  "reviewKey dueReviews latestAttempts p =
    (if dueForReview dueReviews p then 0 else 1, latestAnsweredAt latestAttempts p)"

text \<open>The number of review entries that are due at the current time.\<close>

definition liveDueCount :: "(string \<Rightarrow> int option) \<Rightarrow> int \<Rightarrow> ReviewQueueItem list \<Rightarrow> int" where
  "liveDueCount dateValue now dueReviews = int (length (filter (dueNow dateValue now) dueReviews))"

text \<open>The review-drill card for a given number of due entries.\<close>

definition reviewCard :: "int \<Rightarrow> Recommendation" where
  "reviewCard dueCount =
    \<lparr>title = ReviewDrillTitle (min dueCount 5), reason = DueReason dueCount,
     rec_type = TypeReview, estimatedMinutes = Math_ceil (of_int (dueCount * 50) / 60),
     rec_category = None\<rparr>"

subsection \<open>Sample data\<close>

text \<open>The catalog of the quick-session scenario: A (table), B (bar), C (pie); A was
  answered correctly in 80 s, B incorrectly, C never.\<close>

definition scenarioA :: Problem where
  "scenarioA = \<lparr>Problem_id = ''A'', Problem_category = Table, difficulty = 1,
     Problem_targetTimeSec = 50\<rparr>"

definition scenarioB :: Problem where
  "scenarioB = \<lparr>Problem_id = ''B'', Problem_category = Bar, difficulty = 1,
     Problem_targetTimeSec = 45\<rparr>"

definition scenarioC :: Problem where
  "scenarioC = \<lparr>Problem_id = ''C'', Problem_category = Pie, difficulty = 1,
     Problem_targetTimeSec = 40\<rparr>"

definition scenarioAttemptA :: Attempt where
  "scenarioAttemptA = \<lparr>Attempt_id = ''a1'', Attempt_problemId = ''A'',
     answeredAt = ''2024-05-01T10:00:00.000Z'', isCorrect = True, selectedIndex = 0,
     timeMs = 80000\<rparr>"

definition scenarioAttemptB :: Attempt where
  "scenarioAttemptB = \<lparr>Attempt_id = ''a2'', Attempt_problemId = ''B'',
     answeredAt = ''2024-05-01T10:05:00.000Z'', isCorrect = False, selectedIndex = 1,
     timeMs = 30000\<rparr>"

definition scenarioAttempts :: "(string \<times> Attempt) list" where
  "scenarioAttempts = [(''A'', scenarioAttemptA), (''B'', scenarioAttemptB)]"

text \<open>A second catalog: p1 correct and 5 s over its target, p2 incorrect, p3 correct
  and 50 s over its target, p4 never answered; p4 and p3 have review entries.\<close>

definition demoP1 :: Problem where
  "demoP1 = \<lparr>Problem_id = ''p1'', Problem_category = Table, difficulty = 2,
     Problem_targetTimeSec = 55\<rparr>"

definition demoP2 :: Problem where
  "demoP2 = \<lparr>Problem_id = ''p2'', Problem_category = Bar, difficulty = 1,
     Problem_targetTimeSec = 45\<rparr>"

definition demoP3 :: Problem where
  "demoP3 = \<lparr>Problem_id = ''p3'', Problem_category = Pie, difficulty = 3,
     Problem_targetTimeSec = 40\<rparr>"

definition demoP4 :: Problem where
  "demoP4 = \<lparr>Problem_id = ''p4'', Problem_category = Composite, difficulty = 1,
     Problem_targetTimeSec = 55\<rparr>"

definition demoProblems :: "Problem list" where
  "demoProblems = [demoP1, demoP2, demoP3, demoP4]"

definition demoAttempt1 :: Attempt where
  "demoAttempt1 = \<lparr>Attempt_id = ''t1'', Attempt_problemId = ''p1'',
     answeredAt = ''2024-05-03T09:00:00.000Z'', isCorrect = True, selectedIndex = 2,
     timeMs = 60000\<rparr>"

definition demoAttempt2 :: Attempt where
  "demoAttempt2 = \<lparr>Attempt_id = ''t2'', Attempt_problemId = ''p2'',
     answeredAt = ''2024-05-02T09:00:00.000Z'', isCorrect = False, selectedIndex = 0,
     timeMs = 20000\<rparr>"

definition demoAttempt3 :: Attempt where
  "demoAttempt3 = \<lparr>Attempt_id = ''t3'', Attempt_problemId = ''p3'',
     answeredAt = ''2024-05-01T09:00:00.000Z'', isCorrect = True, selectedIndex = 4,
     timeMs = 90000\<rparr>"

definition demoAttempts :: "(string \<times> Attempt) list" where
  "demoAttempts = [(''p1'', demoAttempt1), (''p2'', demoAttempt2), (''p3'', demoAttempt3)]"

definition demoDue :: "ReviewQueueItem list" where
  "demoDue =
    [\<lparr>problemId = ''p4'', nextReviewAt = ''2024-05-04T00:00:00.000Z'', stage = 1\<rparr>,
     \<lparr>problemId = ''p3'', nextReviewAt = ''2024-05-05T00:00:00.000Z'', stage = 2\<rparr>]"

text \<open>The time values (milliseconds since the epoch) of the two review dates.\<close>

definition demoDateValue :: "string \<Rightarrow> int option" where
  "demoDateValue s =
    (if s = ''2024-05-04T00:00:00.000Z'' then Some 1714780800000
     else if s = ''2024-05-05T00:00:00.000Z'' then Some 1714867200000
     else None)"

section \<open>Properties\<close>

lemma CATEGORY_MAP_Table: "CATEGORY_MAP Table = Some (CATEGORIES ! 0)"
  by (simp add: CATEGORY_MAP_def fromEntries_def CATEGORIES_def)

lemma CATEGORY_MAP_Bar: "CATEGORY_MAP Bar = Some (CATEGORIES ! 1)"
  by (simp add: CATEGORY_MAP_def fromEntries_def CATEGORIES_def)

lemma CATEGORY_MAP_Pie: "CATEGORY_MAP Pie = Some (CATEGORIES ! 2)"
  by (simp add: CATEGORY_MAP_def fromEntries_def CATEGORIES_def)

lemma CATEGORY_MAP_Composite: "CATEGORY_MAP Composite = Some (CATEGORIES ! 3)"
  by (simp add: CATEGORY_MAP_def fromEntries_def CATEGORIES_def)

lemma targetTimeForCategory_simps:
  "targetTimeForCategory Table = 55"
  "targetTimeForCategory Bar = 45"
  "targetTimeForCategory Pie = 40"
  "targetTimeForCategory Composite = 55"
  by (simp_all add: targetTimeForCategory_def CATEGORY_MAP_Table CATEGORY_MAP_Bar
      CATEGORY_MAP_Pie CATEGORY_MAP_Composite CATEGORIES_def)

lemma estimateSolveSeconds_eq: "estimateSolveSeconds c = targetTimeForCategory c"
  by (simp add: estimateSolveSeconds_def targetTimeForCategory_def)

text \<open>
  Claim C10. For every category of the closed type, the catalog has an entry, so
  the fallback of 50 seconds is never taken: \<open>targetTimeForCategory\<close> and
  \<open>estimateSolveSeconds\<close> agree and return 55 s for table, 45 s for bar, 40 s
  for pie and 55 s for composite. In particular the table target is 55, not 50.
\<close>

theorem C10_target_times:
  "CATEGORY_MAP c \<noteq> None
   \<and> estimateSolveSeconds c = targetTimeForCategory c
   \<and> targetTimeForCategory c = (case c of Table \<Rightarrow> 55 | Bar \<Rightarrow> 45 | Pie \<Rightarrow> 40 | Composite \<Rightarrow> 55)
   \<and> targetTimeForCategory Table \<noteq> 50"
  by (cases c)
    (simp_all add: estimateSolveSeconds_eq targetTimeForCategory_simps CATEGORY_MAP_Table
      CATEGORY_MAP_Bar CATEGORY_MAP_Pie CATEGORY_MAP_Composite)

subsection \<open>The review scheduler\<close>

lemma computeNextReview_cases:
  "computeNextReview isoAfter pId correct cur =
    (if newStage correct cur < 0 then Inl RangeError
     else Inr \<lparr>problemId = pId,
               nextReviewAt = isoAfter (REVIEW_INTERVALS_DAYS ! nat (min (newStage correct cur) 4)),
               stage = newStage correct cur\<rparr>)"
  by (simp add: computeNextReview_def Let_def js_index_def REVIEW_INTERVALS_DAYS_def min_def)

lemma newStage_nonneg: "0 \<le> currentStage cur \<Longrightarrow> 0 \<le> newStage correct cur"
  by (simp add: newStage_def)

lemma answerAll_nonneg:
  "0 \<le> currentStage entry \<Longrightarrow>
   \<exists>entry'. answerAll isoAfter pId answers entry = Inr entry' \<and> 0 \<le> currentStage entry'
      \<and> (answers \<noteq> [] \<longrightarrow> entry' \<noteq> None)"
proof (induction answers arbitrary: entry)
  case Nil
  then show ?case by simp
next
  case (Cons correct answers)
  let ?e = "\<lparr>problemId = pId,
               nextReviewAt = isoAfter (REVIEW_INTERVALS_DAYS ! nat (min (newStage correct entry) 4)),
               stage = newStage correct entry\<rparr>"
  from Cons.prems have ns: "0 \<le> newStage correct entry" by (rule newStage_nonneg)
  then have step: "computeNextReview isoAfter pId correct entry = Inr ?e"
    by (simp add: computeNextReview_cases)
  have "0 \<le> currentStage (Some ?e)" using ns by (simp add: currentStage_def)
  from Cons.IH [OF this] obtain entry' where
    run: "answerAll isoAfter pId answers (Some ?e) = Inr entry'"
    and nn: "0 \<le> currentStage entry'" and ne: "answers \<noteq> [] \<longrightarrow> entry' \<noteq> None"
    by blast
  have "entry' \<noteq> None"
  proof (cases answers)
    case Nil
    with run show ?thesis by auto
  next
    case (Cons a as)
    with ne show ?thesis by simp
  qed
  with run nn show ?case by (simp add: step)
qed

text \<open>
  Claim C1. Whenever \<open>computeNextReview\<close> returns an entry, its stage is the
  current stage plus 1 after a correct answer and \<open>max (current stage - 1) 0\<close>
  after an incorrect one; an absent current entry counts as stage 0 (and then the
  call returns, with stage 1 or 0). Hence every sequence of answers to one
  question, started from no entry, runs to its end without an exception and
  leaves an entry whose stage is not negative.
\<close>

theorem C1_stage_walk:
  "(computeNextReview isoAfter pId correct cur = Inr r \<longrightarrow>
      stage r = (if correct then currentStage cur + 1 else max (currentStage cur - 1) 0))
   \<and> currentStage None = 0
   \<and> (\<exists>r. computeNextReview isoAfter pId correct None = Inr r \<and> stage r = (if correct then 1 else 0))
   \<and> (\<exists>entry. answerAll isoAfter pId answers None = Inr entry \<and> 0 \<le> currentStage entry
        \<and> (answers \<noteq> [] \<longrightarrow> entry \<noteq> None))"
proof (intro conjI)
  show "computeNextReview isoAfter pId correct cur = Inr r \<longrightarrow>
      stage r = (if correct then currentStage cur + 1 else max (currentStage cur - 1) 0)"
    by (auto simp: computeNextReview_cases newStage_def split: if_splits)
  show "currentStage None = 0" by (simp add: currentStage_def)
  show "\<exists>r. computeNextReview isoAfter pId correct None = Inr r \<and> stage r = (if correct then 1 else 0)"
    by (simp add: computeNextReview_cases newStage_def currentStage_def)
  have "0 \<le> currentStage None" by (simp add: currentStage_def)
  from answerAll_nonneg [OF this]
  show "\<exists>entry. answerAll isoAfter pId answers None = Inr entry \<and> 0 \<le> currentStage entry
        \<and> (answers \<noteq> [] \<longrightarrow> entry \<noteq> None)" .
qed

theorem C1_stage_walk_witness:
  "computeNextReview (\<lambda>d. ''now+'' @ replicate (nat d) CHR ''d'') ''q1'' False
      (Some \<lparr>problemId = ''q1'', nextReviewAt = ''2024-01-01T00:00:00.000Z'', stage = 3\<rparr>)
    = Inr \<lparr>problemId = ''q1'', nextReviewAt = ''now+ddddddd'', stage = 2\<rparr>
   \<and> stage \<lparr>problemId = ''q1'', nextReviewAt = ''now+ddddddd'', stage = 2\<rparr>
      = max (currentStage (Some \<lparr>problemId = ''q1'',
            nextReviewAt = ''2024-01-01T00:00:00.000Z'', stage = 3\<rparr>) - 1) 0
   \<and> answerAll (\<lambda>d. ''now+'' @ replicate (nat d) CHR ''d'') ''q1'' [False, True, False, False] None
      = Inr (Some \<lparr>problemId = ''q1'', nextReviewAt = ''now+d'', stage = 0\<rparr>)"
  using C1_stage_walk [of "\<lambda>d. ''now+'' @ replicate (nat d) CHR ''d''" "''q1''" False
      "Some \<lparr>problemId = ''q1'', nextReviewAt = ''2024-01-01T00:00:00.000Z'', stage = 3\<rparr>"
      "\<lparr>problemId = ''q1'', nextReviewAt = ''now+ddddddd'', stage = 2\<rparr>"
      "[False, True, False, False]"]
  by (simp add: computeNextReview_cases newStage_def currentStage_def REVIEW_INTERVALS_DAYS_def
      eval_nat_numeral)

text \<open>
  Claim C3. When the new stage is 4 or more, \<open>computeNextReview\<close> returns, and
  the returned \<open>nextReviewAt\<close> is the date 30 days after now (the last entry of
  the table), whatever the stage: stage 10 still gives 30 days.
\<close>

theorem C3_interval_clamp:
  "4 \<le> newStage correct cur \<longrightarrow>
     computeNextReview isoAfter pId correct cur =
       Inr \<lparr>problemId = pId, nextReviewAt = isoAfter 30, stage = newStage correct cur\<rparr>"
  by (simp add: computeNextReview_cases REVIEW_INTERVALS_DAYS_def min_def)

theorem C3_interval_clamp_witness:
  "4 \<le> newStage True (Some \<lparr>problemId = ''q1'', nextReviewAt = '''', stage = 9\<rparr>)
   \<and> computeNextReview (\<lambda>d. ''now+'' @ replicate (nat d) CHR ''d'') ''q1'' True
        (Some \<lparr>problemId = ''q1'', nextReviewAt = '''', stage = 9\<rparr>)
      = Inr \<lparr>problemId = ''q1'', nextReviewAt = ''now+dddddddddddddddddddddddddddddd'', stage = 10\<rparr>"
proof -
  have h: "4 \<le> newStage True (Some \<lparr>problemId = ''q1'', nextReviewAt = '''', stage = 9\<rparr>)"
    by (simp add: newStage_def currentStage_def)
  from C3_interval_clamp [of True "Some \<lparr>problemId = ''q1'', nextReviewAt = '''', stage = 9\<rparr>"
      "\<lambda>d. ''now+'' @ replicate (nat d) CHR ''d''" "''q1''"] h
  show ?thesis by (simp add: newStage_def currentStage_def eval_nat_numeral)
qed

text \<open>
  Claim C4, as stated, fails: only an index above the table is clamped
  (\<^verbatim>\<open>Math.min\<close>), a negative one is not. A correct answer on an entry of stage
  \<open>- 2\<close> gives the index \<open>- 1\<close>, the lookup is \<^verbatim>\<open>undefined\<close> and
  \<^verbatim>\<open>toISOString\<close> throws.
\<close>

theorem C4_throws_on_negative_stage:
  "computeNextReview (\<lambda>d. ''now'') ''q1'' True
     (Some \<lparr>problemId = ''q1'', nextReviewAt = ''2024-01-01T00:00:00.000Z'', stage = - 2\<rparr>)
   = Inl RangeError"
  by (simp add: computeNextReview_cases newStage_def currentStage_def)

text \<open>
  Claim C4, amended. \<open>computeNextReview\<close> throws exactly when the answer is
  correct and the current stage is below \<open>- 1\<close>. For every other input (no
  entry, any stage from \<open>- 1\<close> up, or an incorrect answer at any stage) the
  table index is \<open>min (new stage) 4\<close>, lies within the table, and an entry with
  a non-negative stage is returned.
\<close>

theorem C4_total_unless_stage_below_minus_one:
  "(computeNextReview isoAfter pId correct cur = Inl RangeError)
      = (correct \<and> currentStage cur < - 1)
   \<and> (\<not> correct \<or> - 1 \<le> currentStage cur \<longrightarrow>
        (\<exists>i days. i = min (newStage correct cur) 4
           \<and> 0 \<le> i \<and> i < int (length REVIEW_INTERVALS_DAYS)
           \<and> js_index REVIEW_INTERVALS_DAYS i = Some days
           \<and> 0 \<le> newStage correct cur
           \<and> computeNextReview isoAfter pId correct cur =
               Inr \<lparr>problemId = pId, nextReviewAt = isoAfter days,
                     stage = newStage correct cur\<rparr>))"
proof (intro conjI impI)
  show "(computeNextReview isoAfter pId correct cur = Inl RangeError)
      = (correct \<and> currentStage cur < - 1)"
    by (auto simp: computeNextReview_cases newStage_def)
next
  assume "\<not> correct \<or> - 1 \<le> currentStage cur"
  then have ns: "0 \<le> newStage correct cur"
    by (auto simp: newStage_def)
  then have "js_index REVIEW_INTERVALS_DAYS (min (newStage correct cur) 4)
      = Some (REVIEW_INTERVALS_DAYS ! nat (min (newStage correct cur) 4))"
    by (simp add: js_index_def REVIEW_INTERVALS_DAYS_def)
  with ns show "\<exists>i days. i = min (newStage correct cur) 4
           \<and> 0 \<le> i \<and> i < int (length REVIEW_INTERVALS_DAYS)
           \<and> js_index REVIEW_INTERVALS_DAYS i = Some days
           \<and> 0 \<le> newStage correct cur
           \<and> computeNextReview isoAfter pId correct cur =
               Inr \<lparr>problemId = pId, nextReviewAt = isoAfter days,
                     stage = newStage correct cur\<rparr>"
    by (simp add: computeNextReview_cases REVIEW_INTERVALS_DAYS_def)
qed

theorem C4_total_unless_stage_below_minus_one_witness:
  "computeNextReview (\<lambda>d. ''now+'' @ replicate (nat d) CHR ''d'') ''q1'' False
      (Some \<lparr>problemId = ''q1'', nextReviewAt = '''', stage = - 7\<rparr>)
     = Inr \<lparr>problemId = ''q1'', nextReviewAt = ''now+d'', stage = 0\<rparr>
   \<and> computeNextReview (\<lambda>d. ''now+'' @ replicate (nat d) CHR ''d'') ''q1'' False
      (Some \<lparr>problemId = ''q1'', nextReviewAt = '''', stage = - 7\<rparr>) \<noteq> Inl RangeError"
  using C4_total_unless_stage_below_minus_one [of "\<lambda>d. ''now+'' @ replicate (nat d) CHR ''d''"
      "''q1''" False "Some \<lparr>problemId = ''q1'', nextReviewAt = '''', stage = - 7\<rparr>"]
  by (simp add: newStage_def currentStage_def js_index_def REVIEW_INTERVALS_DAYS_def)

subsection \<open>Sorting and slicing\<close>

lemma js_insert_eq_insort_key:
  fixes cmp :: "'a \<Rightarrow> 'a \<Rightarrow> 'c::{zero,ord}" and key :: "'a \<Rightarrow> 'k::linorder"
  assumes "\<And>a b. (cmp a b \<le> 0) = (key a \<le> key b)"
  shows "js_insert cmp x xs = insort_key key x xs"
  by (induction xs) (simp_all add: assms)

text \<open>A comparator that compares keys sorts as the library's stable \<open>sort_key\<close>.\<close>

lemma js_sort_eq_sort_key:
  fixes cmp :: "'a \<Rightarrow> 'a \<Rightarrow> 'c::{zero,ord}" and key :: "'a \<Rightarrow> 'k::linorder"
  assumes "\<And>a b. (cmp a b \<le> 0) = (key a \<le> key b)"
  shows "js_sort cmp xs = sort_key key xs"
proof -
  have "js_insert cmp = insort_key key"
    by (intro ext) (rule js_insert_eq_insort_key [OF assms])
  then show ?thesis by (simp add: js_sort_def sort_key_def)
qed

lemma js_slice0_prefix: "\<exists>k. js_slice0 xs n = take k xs"
  by (auto simp: js_slice0_def)

lemma map_js_slice0: "map g (js_slice0 xs n) = js_slice0 (map g xs) n"
  by (simp add: js_slice0_def take_map)


lemma sorted_desc_positions:
  fixes f :: "'a \<Rightarrow> 'k::linorder"
  assumes "sorted_wrt (\<lambda>x y. f y \<le> f x) xs" and "i < length xs" and "j < length xs"
    and "f (xs ! j) < f (xs ! i)"
  shows "i < j"
proof (rule ccontr)
  assume "\<not> i < j"
  then consider "i = j" | "j < i" by linarith
  then show False
  proof cases
    case 1
    with assms(4) show False by simp
  next
    case 2
    with assms(1,2) have "f (xs ! i) \<le> f (xs ! j)"
      by (simp add: sorted_wrt_iff_nth_less)
    with assms(4) show False by simp
  qed
qed

lemma sorted_desc_take_closed:
  fixes f :: "'a \<Rightarrow> 'k::linorder"
  assumes "sorted_wrt (\<lambda>x y. f y \<le> f x) xs" and "p \<in> set xs" and "q \<in> set (take k xs)"
    and "f q < f p"
  shows "p \<in> set (take k xs)"
proof -
  from assms(2) obtain i where i: "i < length xs" "xs ! i = p"
    by (auto simp: in_set_conv_nth)
  from assms(3) obtain j where j: "j < length (take k xs)" "take k xs ! j = q"
    by (auto simp: in_set_conv_nth)
  then have j': "j < length xs" "j < k" "xs ! j = q" by simp_all
  from i j' assms(4) have "f (xs ! j) < f (xs ! i)" by simp
  from sorted_desc_positions [OF assms(1) i(1) j'(1) this] have "i < j" .
  with j' i have "i < length (take k xs)" "take k xs ! i = p" by simp_all
  then show ?thesis by (metis nth_mem)
qed

subsection \<open>The quick session\<close>

lemma estimateSolveSeconds_simps:
  "estimateSolveSeconds Table = 55"
  "estimateSolveSeconds Bar = 45"
  "estimateSolveSeconds Pie = 40"
  "estimateSolveSeconds Composite = 55"
  by (simp_all add: estimateSolveSeconds_eq targetTimeForCategory_simps)

text \<open>
  Claim C2, as stated, fails on the scenario: the slow-but-correct pool is walked
  before the recently-wrong pool, so A comes first. A's estimate is the table
  category's 55 s (below 60), B's adds 45 s and ends the walk.
\<close>

theorem C2_scenario_returns_A_then_B:
  "Problem_category scenarioA = Table \<and> Problem_category scenarioB = Bar
   \<and> Problem_category scenarioC = Pie
   \<and> map_of scenarioAttempts (Problem_id scenarioA) = Some scenarioAttemptA
   \<and> isCorrect scenarioAttemptA \<and> timeMs scenarioAttemptA = 80000
   \<and> targetTimeForCategory (Problem_category scenarioA) * 1000 < timeMs scenarioAttemptA
   \<and> map_of scenarioAttempts (Problem_id scenarioB) = Some scenarioAttemptB
   \<and> \<not> isCorrect scenarioAttemptB
   \<and> map_of scenarioAttempts (Problem_id scenarioC) = None
   \<and> pickQuickSession codePointCompare 60 [scenarioA, scenarioB, scenarioC] scenarioAttempts []
        = [scenarioA, scenarioB]
   \<and> pickQuickSession codePointCompare 60 [scenarioA, scenarioB, scenarioC] scenarioAttempts []
        \<noteq> [scenarioB, scenarioA]"
  by code_simp

text \<open>
  Claim C2, amended. For a catalog of three questions A (table), B (bar), C (pie),
  where A's latest attempt is correct with elapsed time 80 s, B's latest attempt
  is incorrect, C has no attempt and the due-review list is empty,
  \<open>pickQuickSession\<close> with a target of 60 seconds returns exactly [A, B]: the
  slow-but-correct question before the recently-wrong one. No pool has two
  elements, so the result is the same for every collation.
\<close>

theorem C2_quick_session_slow_before_wrong:
  assumes "Problem_category A = Table" "Problem_category B = Bar" "Problem_category C = Pie"
    and "map_of latestAttempts (Problem_id A) = Some attemptA"
    and "isCorrect attemptA" "timeMs attemptA = 80000"
    and "map_of latestAttempts (Problem_id B) = Some attemptB"
    and "\<not> isCorrect attemptB"
    and "map_of latestAttempts (Problem_id C) = None"
  shows "pickQuickSession localeCompare 60 [A, B, C] latestAttempts [] = [A, B]"
proof -
  from assms have ne: "Problem_id A \<noteq> Problem_id B" by auto
  have due: "duePool localeCompare [A, B, C] [] = []"
    by (simp add: duePool_def js_sort_def)
  have slow: "slowPool [A, B, C] latestAttempts = [A]"
    using assms by (simp add: slowPool_def js_sort_def targetTimeForCategory_simps)
  have wrong: "wrongRecentPool localeCompare [A, B, C] latestAttempts = [B]"
    using assms by (simp add: wrongRecentPool_def js_sort_def)
  have unseen: "unseenPool [A, B, C] latestAttempts = [C]"
    using assms by (simp add: unseenPool_def js_sort_def)
  show ?thesis
    using ne assms(1,2)
    by (simp add: pickQuickSession_def due slow wrong unseen Let_def estimateSolveSeconds_simps)
qed

theorem C2_quick_session_slow_before_wrong_witness:
  "pickQuickSession codePointCompare 60 [scenarioA, scenarioB, scenarioC] scenarioAttempts []
     = [scenarioA, scenarioB]"
proof (rule C2_quick_session_slow_before_wrong)
  show "Problem_category scenarioA = Table" by (simp add: scenarioA_def)
  show "Problem_category scenarioB = Bar" by (simp add: scenarioB_def)
  show "Problem_category scenarioC = Pie" by (simp add: scenarioC_def)
  show "map_of scenarioAttempts (Problem_id scenarioA) = Some scenarioAttemptA"
    by (simp add: scenarioAttempts_def scenarioA_def)
  show "isCorrect scenarioAttemptA" by (simp add: scenarioAttemptA_def)
  show "timeMs scenarioAttemptA = 80000" by (simp add: scenarioAttemptA_def)
  show "map_of scenarioAttempts (Problem_id scenarioB) = Some scenarioAttemptB"
    by (simp add: scenarioAttempts_def scenarioB_def)
  show "\<not> isCorrect scenarioAttemptB" by (simp add: scenarioAttemptB_def)
  show "map_of scenarioAttempts (Problem_id scenarioC) = None"
    by (simp add: scenarioAttempts_def scenarioC_def)
qed

lemma walkPool_inv:
  "pick_inv s \<Longrightarrow>
   (case walkPool t pool s of
      Inl result \<Rightarrow> distinct (map Problem_id result)
    | Inr s' \<Rightarrow> pick_inv s')"
proof (induction pool arbitrary: s)
  case Nil
  then show ?case by simp
next
  case (Cons p pool)
  show ?case
  proof (cases "Problem_id p \<in> pickedSet s")
    case True
    with Cons.IH [OF Cons.prems] show ?thesis by simp
  next
    case False
    let ?s' = "\<lparr>picked = picked s @ [p],
                 pickedSet = insert (Problem_id p) (pickedSet s),
                 estimatedTime = estimatedTime s + estimateSolveSeconds (Problem_category p)\<rparr>"
    from False Cons.prems have inv': "pick_inv ?s'"
      by (auto simp: pick_inv_def)
    show ?thesis
    proof (cases "t \<le> estimatedTime ?s'")
      case True
      with False inv' show ?thesis by (simp add: pick_inv_def Let_def)
    next
      case stop: False
      with False Cons.IH [OF inv'] show ?thesis by (simp add: Let_def)
    qed
  qed
qed

lemma walkPools_distinct:
  "pick_inv s \<Longrightarrow> distinct (map Problem_id (walkPools t pools s))"
proof (induction pools arbitrary: s)
  case Nil
  then show ?case by (simp add: pick_inv_def)
next
  case (Cons pool pools)
  from walkPool_inv [OF Cons.prems, of t pool] Cons.IH
  show ?case by (cases "walkPool t pool s") simp_all
qed

lemma firstOfEachId_append:
  "firstOfEachId seen (xs @ ys)
    = firstOfEachId seen xs @ firstOfEachId (seen \<union> Problem_id ` set xs) ys"
  by (induction xs arbitrary: seen) (simp_all add: insert_absorb)

lemma walkPool_first:
  "(case walkPool t pool s of
      Inl result \<Rightarrow> \<exists>k. result = picked s @ take k (firstOfEachId (pickedSet s) pool)
    | Inr s' \<Rightarrow> picked s' = picked s @ firstOfEachId (pickedSet s) pool
        \<and> pickedSet s' = pickedSet s \<union> Problem_id ` set pool)"
proof (induction pool arbitrary: s)
  case Nil
  then show ?case by simp
next
  case (Cons p pool)
  show ?case
  proof (cases "Problem_id p \<in> pickedSet s")
    case True
    with Cons.IH [of s] show ?thesis
      by (auto simp: insert_absorb split: sum.splits)
  next
    case False
    let ?s' = "\<lparr>picked = picked s @ [p],
                 pickedSet = insert (Problem_id p) (pickedSet s),
                 estimatedTime = estimatedTime s + estimateSolveSeconds (Problem_category p)\<rparr>"
    show ?thesis
    proof (cases "t \<le> estimatedTime ?s'")
      case True
      have "picked s @ [p] = picked s @ take 1 (firstOfEachId (pickedSet s) (p # pool))"
        using False by simp
      then have "\<exists>k. picked s @ [p] = picked s @ take k (firstOfEachId (pickedSet s) (p # pool))"
        by (rule exI)
      with True False show ?thesis by (simp add: Let_def)
    next
      case go: False
      show ?thesis
      proof (cases "walkPool t pool ?s'")
        case (Inl result)
        with Cons.IH [of ?s'] obtain k where
          "result = (picked s @ [p]) @ take k (firstOfEachId (insert (Problem_id p) (pickedSet s)) pool)"
          by auto
        then have "result = picked s @ take (Suc k) (firstOfEachId (pickedSet s) (p # pool))"
          using False by simp
        then have "\<exists>k. result = picked s @ take k (firstOfEachId (pickedSet s) (p # pool))"
          by (rule exI)
        with Inl go False show ?thesis by (simp add: Let_def)
      next
        case (Inr s'')
        with Cons.IH [of ?s'] have
          "picked s'' = (picked s @ [p]) @ firstOfEachId (insert (Problem_id p) (pickedSet s)) pool
           \<and> pickedSet s'' = insert (Problem_id p) (pickedSet s) \<union> Problem_id ` set pool"
          by simp
        with Inr go False show ?thesis by (simp add: Let_def)
      qed
    qed
  qed
qed

lemma walkPools_first:
  "\<exists>k. walkPools t pools s = picked s @ take k (firstOfEachId (pickedSet s) (concat pools))"
proof (induction pools arbitrary: s)
  case Nil
  have "walkPools t [] s = picked s @ take 0 (firstOfEachId (pickedSet s) (concat []))" by simp
  then show ?case by (rule exI)
next
  case (Cons pool pools)
  show ?case
  proof (cases "walkPool t pool s")
    case (Inl result)
    with walkPool_first [where t = t and pool = pool and s = s] obtain k where
      r: "result = picked s @ take k (firstOfEachId (pickedSet s) pool)" by auto
    have "take (min k (length (firstOfEachId (pickedSet s) pool)))
        (firstOfEachId (pickedSet s) (concat (pool # pools)))
        = take k (firstOfEachId (pickedSet s) pool)"
      by (simp add: firstOfEachId_append min_def)
    with r have "result = picked s @ take (min k (length (firstOfEachId (pickedSet s) pool)))
        (firstOfEachId (pickedSet s) (concat (pool # pools)))" by simp
    then have "\<exists>k. result = picked s @ take k (firstOfEachId (pickedSet s) (concat (pool # pools)))"
      by (rule exI)
    with Inl show ?thesis by simp
  next
    case (Inr s')
    with walkPool_first [where t = t and pool = pool and s = s] have
      p: "picked s' = picked s @ firstOfEachId (pickedSet s) pool"
      and ps: "pickedSet s' = pickedSet s \<union> Problem_id ` set pool" by simp_all
    from Cons.IH [of s'] obtain k where
      "walkPools t pools s' = picked s' @ take k (firstOfEachId (pickedSet s') (concat pools))"
      by blast
    with p ps have "walkPools t pools s'
        = picked s @ take (length (firstOfEachId (pickedSet s) pool) + k)
            (firstOfEachId (pickedSet s) (concat (pool # pools)))"
      by (simp add: firstOfEachId_append)
    then have "\<exists>k. walkPools t pools s'
        = picked s @ take k (firstOfEachId (pickedSet s) (concat (pool # pools)))"
      by (rule exI)
    with Inr show ?thesis by simp
  qed
qed

text \<open>
  Claim C5. For every catalog, latest-attempt map, due-review list and target
  duration, no question id occurs twice in the list \<open>pickQuickSession\<close> returns,
  whatever the overlap of the pools (and even if the catalog repeats an id). The
  first pool wins: the result is a prefix of the four pools in order, each id
  kept at its first occurrence only.
\<close>

theorem C5_quick_session_distinct:
  "distinct (map Problem_id (pickQuickSession localeCompare targetSeconds allProblems latestAttempts dueReviews))
   \<and> (\<exists>k. pickQuickSession localeCompare targetSeconds allProblems latestAttempts dueReviews
        = take k (firstOfEachId {}
            (duePool localeCompare allProblems dueReviews @ slowPool allProblems latestAttempts
              @ wrongRecentPool localeCompare allProblems latestAttempts @ unseenPool allProblems latestAttempts)))"
proof
  show "distinct (map Problem_id (pickQuickSession localeCompare targetSeconds allProblems latestAttempts dueReviews))"
    unfolding pickQuickSession_def Let_def
    by (rule walkPools_distinct) (simp add: pick_inv_def)
  from walkPools_first [of targetSeconds
      "[duePool localeCompare allProblems dueReviews, slowPool allProblems latestAttempts,
        wrongRecentPool localeCompare allProblems latestAttempts, unseenPool allProblems latestAttempts]"
      "\<lparr>picked = [], pickedSet = {}, estimatedTime = 0\<rparr>"]
  show "\<exists>k. pickQuickSession localeCompare targetSeconds allProblems latestAttempts dueReviews
        = take k (firstOfEachId {}
            (duePool localeCompare allProblems dueReviews @ slowPool allProblems latestAttempts
              @ wrongRecentPool localeCompare allProblems latestAttempts @ unseenPool allProblems latestAttempts))"
    by (simp add: pickQuickSession_def Let_def)
qed

subsection \<open>The speed session\<close>

lemma slowPool_sort_key:
  "slowPool ps la = sort_key (\<lambda>p. - latestTimeMs la p) (filter (slowButCorrect la) ps)"
proof -
  have "js_sort
      (\<lambda>a b.
         let aTime = (case map_of la (Problem_id a) of None \<Rightarrow> 0 | Some x \<Rightarrow> timeMs x);
             bTime = (case map_of la (Problem_id b) of None \<Rightarrow> 0 | Some x \<Rightarrow> timeMs x)
         in bTime - aTime) xs
      = sort_key (\<lambda>p. - latestTimeMs la p) xs" for xs
    by (rule js_sort_eq_sort_key) (simp add: Let_def latestTimeMs_def)
  moreover have "(\<lambda>p. case map_of la (Problem_id p) of
               None \<Rightarrow> False
             | Some a \<Rightarrow> isCorrect a \<and> timeMs a > targetTimeForCategory (Problem_category p) * 1000)
      = slowButCorrect la"
    by (intro ext) (simp add: slowButCorrect_def)
  ultimately show ?thesis by (simp add: slowPool_def)
qed

text \<open>
  Claim C8. Pool 2 of \<open>pickQuickSession\<close> is \<open>slowPool\<close>: the questions whose
  latest attempt is correct and strictly over the category target in
  milliseconds, slowest first. \<open>pickSpeedSession\<close> is \<^verbatim>\<open>slice(0, n)\<close> of that
  pool, hence its first \<open>n\<close> elements for every count \<open>n \<ge> 0\<close>, and its first
  10 elements when the count is left out.
\<close>

theorem C8_speed_session_is_slow_pool_prefix:
  "pickQuickSession localeCompare targetSeconds allProblems latestAttempts dueReviews =
     walkPools targetSeconds
       [duePool localeCompare allProblems dueReviews, slowPool allProblems latestAttempts,
        wrongRecentPool localeCompare allProblems latestAttempts, unseenPool allProblems latestAttempts]
       \<lparr>picked = [], pickedSet = {}, estimatedTime = 0\<rparr>
   \<and> mset (slowPool allProblems latestAttempts)
       = mset (filter (slowButCorrect latestAttempts) allProblems)
   \<and> sorted_wrt (\<lambda>x y. latestTimeMs latestAttempts y \<le> latestTimeMs latestAttempts x)
       (slowPool allProblems latestAttempts)
   \<and> pickSpeedSession allProblems latestAttempts (Some n)
       = js_slice0 (slowPool allProblems latestAttempts) n
   \<and> pickSpeedSession allProblems latestAttempts None
       = take 10 (slowPool allProblems latestAttempts)
   \<and> (0 \<le> n \<longrightarrow> pickSpeedSession allProblems latestAttempts (Some n)
       = take (nat n) (slowPool allProblems latestAttempts))"
proof (intro conjI)
  show "pickQuickSession localeCompare targetSeconds allProblems latestAttempts dueReviews =
     walkPools targetSeconds
       [duePool localeCompare allProblems dueReviews, slowPool allProblems latestAttempts,
        wrongRecentPool localeCompare allProblems latestAttempts, unseenPool allProblems latestAttempts]
       \<lparr>picked = [], pickedSet = {}, estimatedTime = 0\<rparr>"
    by (simp only: pickQuickSession_def Let_def)
  show "mset (slowPool allProblems latestAttempts)
       = mset (filter (slowButCorrect latestAttempts) allProblems)"
    by (simp only: slowPool_sort_key mset_sort)
  have "sorted (map (\<lambda>p. - latestTimeMs latestAttempts p) (slowPool allProblems latestAttempts))"
    by (simp only: slowPool_sort_key sorted_sort_key)
  then show "sorted_wrt (\<lambda>x y. latestTimeMs latestAttempts y \<le> latestTimeMs latestAttempts x)
       (slowPool allProblems latestAttempts)"
    by (simp add: sorted_map)
  show "pickSpeedSession allProblems latestAttempts (Some n)
       = js_slice0 (slowPool allProblems latestAttempts) n"
    by (simp add: pickSpeedSession_def slowPool_def)
  show "pickSpeedSession allProblems latestAttempts None
       = take 10 (slowPool allProblems latestAttempts)"
    by (simp add: pickSpeedSession_def slowPool_def js_slice0_def)
  show "0 \<le> n \<longrightarrow> pickSpeedSession allProblems latestAttempts (Some n)
       = take (nat n) (slowPool allProblems latestAttempts)"
    by (simp add: pickSpeedSession_def slowPool_def js_slice0_def)
qed

theorem C8_speed_session_is_slow_pool_prefix_witness:
  "(0::int) \<le> 1
   \<and> slowPool demoProblems demoAttempts = [demoP3, demoP1]
   \<and> pickSpeedSession demoProblems demoAttempts (Some 1) = [demoP3]
   \<and> pickSpeedSession demoProblems demoAttempts (Some 1)
       = take (nat 1) (slowPool demoProblems demoAttempts)"
proof -
  have pool: "slowPool demoProblems demoAttempts = [demoP3, demoP1]" by code_simp
  from C8_speed_session_is_slow_pool_prefix [of codePointCompare 60 demoProblems demoAttempts
      demoDue 1]
  have "(0::int) \<le> 1 \<longrightarrow> pickSpeedSession demoProblems demoAttempts (Some 1)
      = take (nat 1) (slowPool demoProblems demoAttempts)" by blast
  then have pre: "pickSpeedSession demoProblems demoAttempts (Some 1)
      = take (nat 1) (slowPool demoProblems demoAttempts)" by simp
  then have "pickSpeedSession demoProblems demoAttempts (Some 1) = [demoP3]"
    by (simp add: pool)
  with pool pre show ?thesis by simp
qed

subsection \<open>The weakness test\<close>

lemma scoreOf_formula:
  "scoreOf p a = (if isCorrect a then 0 else 10)
     + max 0 (of_int (timeMs a - targetTimeForCategory (Problem_category p) * 1000) / 1000)"
  by (simp add: scoreOf_def Let_def max_def)

lemma scored_map_filter:
  "List.map_filter
     (\<lambda>p. case map_of la (Problem_id p) of None \<Rightarrow> None | Some a \<Rightarrow> Some (p, scoreOf p a)) ps
   = map (\<lambda>p. (p, weaknessScore la p)) (filter (\<lambda>p. map_of la (Problem_id p) \<noteq> None) ps)"
  by (induction ps)
    (auto simp: map_filter_simps weaknessScore_def scoreOf_formula split: option.splits)

lemma js_insert_map_pair:
  fixes f :: "'a \<Rightarrow> rat"
  shows "js_insert (\<lambda>a b. snd b - snd a) (x, f x) (map (\<lambda>p. (p, f p)) ys)
    = map (\<lambda>p. (p, f p)) (js_insert (\<lambda>a b. f b - f a) x ys)"
  by (induction ys) simp_all

lemma js_sort_map_pair:
  fixes f :: "'a \<Rightarrow> rat"
  shows "js_sort (\<lambda>a b. snd b - snd a) (map (\<lambda>p. (p, f p)) xs)
    = map (\<lambda>p. (p, f p)) (js_sort (\<lambda>a b. f b - f a) xs)"
  by (induction xs) (simp_all add: js_sort_def js_insert_map_pair)

lemma pickWeaknessTest_sorted_prefix:
  "pickWeaknessTest ps la countArg =
    js_slice0 (sort_key (\<lambda>p. - weaknessScore la p) (filter (\<lambda>p. map_of la (Problem_id p) \<noteq> None) ps))
      (case countArg of None \<Rightarrow> 20 | Some n \<Rightarrow> n)"
proof -
  have "js_sort (\<lambda>a b. weaknessScore la b - weaknessScore la a) xs
      = sort_key (\<lambda>p. - weaknessScore la p) xs" for xs :: "Problem list"
    by (rule js_sort_eq_sort_key) simp
  then show ?thesis
    by (simp add: pickWeaknessTest_def Let_def scored_map_filter js_sort_map_pair map_js_slice0
        comp_def)
qed

text \<open>
  Claim C6. The scoring callback of \<open>pickWeaknessTest\<close> computes
  (incorrect ? 10 : 0) + max(0, (elapsedMs - targetMs) / 1000); the output is a
  prefix of the questions that have an attempt, sorted by descending score. So
  when \<open>p\<close> is answered incorrectly (score at least 10) and \<open>q\<close> correctly
  with less than 10 s over its target (score below 10), every occurrence of
  \<open>p\<close> in the output precedes every occurrence of \<open>q\<close>, and \<open>q\<close> is not in
  the output without \<open>p\<close>.
\<close>

theorem C6_weakness_order:
  "(\<forall>p' a. scoreOf p' a = (if isCorrect a then 0 else 10)
       + max 0 (of_int (timeMs a - targetTimeForCategory (Problem_category p') * 1000) / 1000))
   \<and> (\<exists>scored k. pickWeaknessTest allProblems latestAttempts countArg = take k scored
        \<and> mset scored = mset (filter (\<lambda>p. map_of latestAttempts (Problem_id p) \<noteq> None) allProblems)
        \<and> sorted_wrt (\<lambda>x y. weaknessScore latestAttempts y \<le> weaknessScore latestAttempts x) scored)
   \<and> sorted_wrt (\<lambda>x y. weaknessScore latestAttempts y \<le> weaknessScore latestAttempts x)
        (pickWeaknessTest allProblems latestAttempts countArg)
   \<and> (p \<in> set allProblems
        \<and> map_of latestAttempts (Problem_id p) = Some ap \<and> \<not> isCorrect ap
        \<and> map_of latestAttempts (Problem_id q) = Some aq \<and> isCorrect aq
        \<and> timeMs aq - targetTimeForCategory (Problem_category q) * 1000 < 10000
      \<longrightarrow> 10 \<le> weaknessScore latestAttempts p \<and> weaknessScore latestAttempts q < 10
        \<and> (q \<in> set (pickWeaknessTest allProblems latestAttempts countArg)
            \<longrightarrow> p \<in> set (pickWeaknessTest allProblems latestAttempts countArg))
        \<and> (\<forall>i j. i < length (pickWeaknessTest allProblems latestAttempts countArg)
              \<and> j < length (pickWeaknessTest allProblems latestAttempts countArg)
              \<and> pickWeaknessTest allProblems latestAttempts countArg ! i = p
              \<and> pickWeaknessTest allProblems latestAttempts countArg ! j = q
            \<longrightarrow> i < j))"
proof -
  let ?w = "weaknessScore latestAttempts"
  let ?full = "sort_key (\<lambda>p. - ?w p)
      (filter (\<lambda>p. map_of latestAttempts (Problem_id p) \<noteq> None) allProblems)"
  let ?out = "pickWeaknessTest allProblems latestAttempts countArg"
  obtain k where "js_slice0 ?full (case countArg of None \<Rightarrow> 20 | Some n \<Rightarrow> n) = take k ?full"
    using js_slice0_prefix by blast
  then have out: "?out = take k ?full"
    by (simp only: pickWeaknessTest_sorted_prefix)
  have "sorted (map (\<lambda>p. - ?w p) ?full)" by (rule sorted_sort_key)
  then have sorted_full: "sorted_wrt (\<lambda>x y. ?w y \<le> ?w x) ?full"
    by (simp add: sorted_map)
  then have sorted_out: "sorted_wrt (\<lambda>x y. ?w y \<le> ?w x) ?out"
    unfolding out by (rule sorted_wrt_take)
  have mset_full: "mset ?full
      = mset (filter (\<lambda>p. map_of latestAttempts (Problem_id p) \<noteq> None) allProblems)"
    by (rule mset_sort)
  have order: "10 \<le> ?w p \<and> ?w q < 10 \<and> (q \<in> set ?out \<longrightarrow> p \<in> set ?out)
      \<and> (\<forall>i j. i < length ?out \<and> j < length ?out \<and> ?out ! i = p \<and> ?out ! j = q \<longrightarrow> i < j)"
    if h: "p \<in> set allProblems \<and> map_of latestAttempts (Problem_id p) = Some ap \<and> \<not> isCorrect ap
        \<and> map_of latestAttempts (Problem_id q) = Some aq \<and> isCorrect aq
        \<and> timeMs aq - targetTimeForCategory (Problem_category q) * 1000 < 10000"
  proof -
    from h have wp: "10 \<le> ?w p" by (simp add: weaknessScore_def)
    from h have "(of_int (timeMs aq - targetTimeForCategory (Problem_category q) * 1000) :: rat)
        < of_int 10000" by (simp only: of_int_less_iff)
    then have wq: "?w q < 10" using h by (simp add: weaknessScore_def)
    from wp wq have lt: "?w q < ?w p" by simp
    from h have p_full: "p \<in> set ?full" by simp
    have mem: "q \<in> set ?out \<longrightarrow> p \<in> set ?out"
    proof
      assume "q \<in> set ?out"
      then have "q \<in> set (take k ?full)" by (simp only: out)
      from sorted_desc_take_closed [OF sorted_full p_full this lt]
      show "p \<in> set ?out" by (simp only: out)
    qed
    have pos: "\<forall>i j. i < length ?out \<and> j < length ?out \<and> ?out ! i = p \<and> ?out ! j = q \<longrightarrow> i < j"
    proof (intro allI impI)
      fix i j
      assume a: "i < length ?out \<and> j < length ?out \<and> ?out ! i = p \<and> ?out ! j = q"
      from a have il: "i < length ?out" and jl: "j < length ?out" by simp_all
      from a lt have "?w (?out ! j) < ?w (?out ! i)" by simp
      from sorted_desc_positions [OF sorted_out il jl this] show "i < j" .
    qed
    show ?thesis by (intro conjI wp wq mem pos)
  qed
  have ex: "\<exists>scored k. ?out = take k scored
        \<and> mset scored = mset (filter (\<lambda>p. map_of latestAttempts (Problem_id p) \<noteq> None) allProblems)
        \<and> sorted_wrt (\<lambda>x y. ?w y \<le> ?w x) scored"
    by (intro exI [of _ ?full] exI [of _ k] conjI out mset_full sorted_full)
  show ?thesis
    apply (intro conjI)
    subgoal by (intro allI) (rule scoreOf_formula)
    subgoal by (rule ex)
    subgoal by (rule sorted_out)
    subgoal by (intro impI) (rule order, assumption)
    done
qed

theorem C6_weakness_order_witness:
  "demoP2 \<in> set demoProblems
   \<and> map_of demoAttempts (Problem_id demoP2) = Some demoAttempt2 \<and> \<not> isCorrect demoAttempt2
   \<and> map_of demoAttempts (Problem_id demoP1) = Some demoAttempt1 \<and> isCorrect demoAttempt1
   \<and> timeMs demoAttempt1 - targetTimeForCategory (Problem_category demoP1) * 1000 < 10000
   \<and> pickWeaknessTest demoProblems demoAttempts None = [demoP3, demoP2, demoP1]
   \<and> 10 \<le> weaknessScore demoAttempts demoP2 \<and> weaknessScore demoAttempts demoP1 < 10
   \<and> weaknessScore demoAttempts demoP1 = 5"
proof -
  have h: "demoP2 \<in> set demoProblems
     \<and> map_of demoAttempts (Problem_id demoP2) = Some demoAttempt2 \<and> \<not> isCorrect demoAttempt2
     \<and> map_of demoAttempts (Problem_id demoP1) = Some demoAttempt1 \<and> isCorrect demoAttempt1
     \<and> timeMs demoAttempt1 - targetTimeForCategory (Problem_category demoP1) * 1000 < 10000"
    by code_simp
  have out: "pickWeaknessTest demoProblems demoAttempts None = [demoP3, demoP2, demoP1]"
    by code_simp
  have five: "weaknessScore demoAttempts demoP1 = 5" by code_simp
  from C6_weakness_order [of demoProblems demoAttempts None demoP2 demoAttempt2 demoP1 demoAttempt1] h
  have "10 \<le> weaknessScore demoAttempts demoP2 \<and> weaknessScore demoAttempts demoP1 < 10"
    by blast
  with h out five show ?thesis by blast
qed

subsection \<open>The review session\<close>

lemma reviewKey_le: "(reviewKey due la p \<le> reviewKey due la q) = reviewOrder due la p q"
  by (auto simp: reviewKey_def reviewOrder_def less_eq_prod_def)

lemma latestAnsweredAt_stamp:
  assumes "isoStamped la"
  shows "latestAnsweredAt la p = '''' \<or> isISOString (latestAnsweredAt la p)"
proof (cases "map_of la (Problem_id p)")
  case None
  then show ?thesis by (simp add: latestAnsweredAt_def)
next
  case (Some a)
  then have "(Problem_id p, a) \<in> set la" by (rule map_of_SomeD)
  with assms have "isISOString (answeredAt a)"
    by (auto simp: isoStamped_def list_all_iff)
  with Some show ?thesis by (simp add: latestAnsweredAt_def)
qed

lemma collatesTimestamps_le0:
  assumes "collatesTimestamps cmp"
    and "a = '''' \<or> isISOString a" and "b = '''' \<or> isISOString b"
  shows "(cmp a b \<le> 0) = (a \<le> b)"
proof -
  from assms have "(cmp a b < 0) = (a < b)" and "(cmp a b = 0) = (a = b)"
    by (simp_all add: collatesTimestamps_def)
  then show ?thesis by (simp add: le_less)
qed

lemma pickReviewSession_sorted_prefix:
  assumes "collatesTimestamps cmp" and "isoStamped la"
  shows "pickReviewSession cmp ps la due maxCountArg =
    js_slice0 (sort_key (reviewKey due la) (filter (\<lambda>p. dueForReview due p \<or> latestIncorrect la p) ps))
      (case maxCountArg of None \<Rightarrow> 10 | Some n \<Rightarrow> n)"
proof -
  have dates: "(cmp (latestAnsweredAt la a) (latestAnsweredAt la b) \<le> 0)
      = (latestAnsweredAt la a \<le> latestAnsweredAt la b)" for a b
    by (rule collatesTimestamps_le0 [OF assms(1)]) (rule latestAnsweredAt_stamp [OF assms(2)])+
  have "js_sort
     (\<lambda>a b.
        let aDue = (if Problem_id a \<in> set (map problemId due) then 0 else 1 :: int);
            bDue = (if Problem_id b \<in> set (map problemId due) then 0 else 1 :: int)
        in if aDue \<noteq> bDue then aDue - bDue
           else
             let aDate = (case map_of la (Problem_id a) of None \<Rightarrow> '''' | Some x \<Rightarrow> answeredAt x);
                 bDate = (case map_of la (Problem_id b) of None \<Rightarrow> '''' | Some x \<Rightarrow> answeredAt x)
             in cmp aDate bDate) xs
     = sort_key (reviewKey due la) xs" for xs
  proof (rule js_sort_eq_sort_key)
    fix a b
    show "((let aDue = (if Problem_id a \<in> set (map problemId due) then 0 else 1 :: int);
            bDue = (if Problem_id b \<in> set (map problemId due) then 0 else 1 :: int)
        in if aDue \<noteq> bDue then aDue - bDue
           else
             let aDate = (case map_of la (Problem_id a) of None \<Rightarrow> '''' | Some x \<Rightarrow> answeredAt x);
                 bDate = (case map_of la (Problem_id b) of None \<Rightarrow> '''' | Some x \<Rightarrow> answeredAt x)
             in cmp aDate bDate) \<le> 0)
      = (reviewKey due la a \<le> reviewKey due la b)"
      using dates [of a b]
      by (auto simp: Let_def reviewKey_def dueForReview_def latestAnsweredAt_def less_eq_prod_def)
  qed
  then show ?thesis
    by (simp add: pickReviewSession_def Let_def dueForReview_def latestIncorrect_def)
qed

lemma due_group_first:
  assumes "sorted_wrt (reviewOrder due la) xs"
  shows "xs = filter (dueForReview due) xs @ filter (\<lambda>p. \<not> dueForReview due p) xs"
  using assms
proof (induction xs)
  case Nil
  then show ?case by simp
next
  case (Cons x xs)
  then have IH: "xs = filter (dueForReview due) xs @ filter (\<lambda>p. \<not> dueForReview due p) xs"
    by simp
  show ?case
  proof (cases "dueForReview due x")
    case True
    with IH show ?thesis by simp
  next
    case False
    with Cons.prems have "\<forall>y\<in>set xs. \<not> dueForReview due y"
      by (auto simp: reviewOrder_def)
    then have "filter (dueForReview due) xs = []" "filter (\<lambda>p. \<not> dueForReview due p) xs = xs"
      by (simp_all add: filter_empty_conv)
    with False show ?thesis by simp
  qed
qed

text \<open>
  Claim C7. Let the latest attempts carry the timestamps the application writes
  (fixed-width \<^verbatim>\<open>toISOString\<close> strings), and let the runtime's
  \<^verbatim>\<open>localeCompare\<close> order those strings and the empty string as their
  characters do, which is the order of the instants. Then \<open>pickReviewSession\<close>
  sorts the questions that are due for review or whose latest attempt is
  incorrect (each as often as the catalog lists it): the due questions first, as
  a group, and within either group the older latest attempt first (a question
  without attempt counts as oldest). It returns \<^verbatim>\<open>slice(0, maxCount)\<close> of
  that list: for a count \<open>maxCount \<ge> 0\<close> its first \<open>maxCount\<close> elements, so at
  most \<open>maxCount\<close> items, and its first 10 elements when the count is left out.
\<close>

theorem C7_review_session:
  assumes "collatesTimestamps localeCompare" and "isoStamped latestAttempts"
  shows "\<exists>candidates.
     mset candidates
       = mset (filter (\<lambda>p. dueForReview dueReviews p \<or> latestIncorrect latestAttempts p) allProblems)
     \<and> sorted_wrt (reviewOrder dueReviews latestAttempts) candidates
     \<and> candidates = filter (dueForReview dueReviews) candidates
         @ filter (\<lambda>p. \<not> dueForReview dueReviews p) candidates
     \<and> pickReviewSession localeCompare allProblems latestAttempts dueReviews (Some maxCount)
         = js_slice0 candidates maxCount
     \<and> pickReviewSession localeCompare allProblems latestAttempts dueReviews None
         = take 10 candidates
     \<and> (0 \<le> maxCount \<longrightarrow>
          pickReviewSession localeCompare allProblems latestAttempts dueReviews (Some maxCount)
            = take (nat maxCount) candidates
          \<and> int (length (pickReviewSession localeCompare allProblems latestAttempts dueReviews
                (Some maxCount)))
            \<le> maxCount)"
proof -
  let ?c = "sort_key (reviewKey dueReviews latestAttempts)
      (filter (\<lambda>p. dueForReview dueReviews p \<or> latestIncorrect latestAttempts p) allProblems)"
  note prefix = pickReviewSession_sorted_prefix [OF assms]
  have m: "mset ?c
      = mset (filter (\<lambda>p. dueForReview dueReviews p \<or> latestIncorrect latestAttempts p) allProblems)"
    by (rule mset_sort)
  have "sorted (map (reviewKey dueReviews latestAttempts) ?c)" by (rule sorted_sort_key)
  then have s: "sorted_wrt (reviewOrder dueReviews latestAttempts) ?c"
    by (simp add: sorted_map reviewKey_le)
  note g = due_group_first [OF s]
  have a: "pickReviewSession localeCompare allProblems latestAttempts dueReviews (Some maxCount)
      = js_slice0 ?c maxCount"
    by (simp add: prefix)
  have b: "pickReviewSession localeCompare allProblems latestAttempts dueReviews None = take 10 ?c"
    by (simp add: prefix js_slice0_def)
  have c: "0 \<le> maxCount \<longrightarrow>
      pickReviewSession localeCompare allProblems latestAttempts dueReviews (Some maxCount)
        = take (nat maxCount) ?c
      \<and> int (length (pickReviewSession localeCompare allProblems latestAttempts dueReviews
            (Some maxCount)))
        \<le> maxCount"
    by (auto simp: a js_slice0_def)
  show ?thesis
    by (rule exI [of _ ?c]) (intro conjI m s g a b c)
qed

theorem C7_review_session_witness:
  "collatesTimestamps codePointCompare \<and> isoStamped demoAttempts
   \<and> (0::int) \<le> 2
   \<and> pickReviewSession codePointCompare demoProblems demoAttempts demoDue (Some 2)
       = [demoP4, demoP3]
   \<and> int (length (pickReviewSession codePointCompare demoProblems demoAttempts demoDue (Some 2)))
       \<le> 2
   \<and> pickReviewSession codePointCompare demoProblems demoAttempts demoDue None
       = [demoP4, demoP3, demoP2]
   \<and> dueForReview demoDue demoP4 \<and> dueForReview demoDue demoP3
   \<and> \<not> dueForReview demoDue demoP2 \<and> latestIncorrect demoAttempts demoP2"
proof -
  have col: "collatesTimestamps codePointCompare"
    by (simp add: collatesTimestamps_def codePointCompare_def)
  have iso: "isoStamped demoAttempts" by code_simp
  have v: "pickReviewSession codePointCompare demoProblems demoAttempts demoDue (Some 2)
      = [demoP4, demoP3]"
    by code_simp
  have d: "pickReviewSession codePointCompare demoProblems demoAttempts demoDue None
      = [demoP4, demoP3, demoP2]"
    by code_simp
  have f: "dueForReview demoDue demoP4 \<and> dueForReview demoDue demoP3
     \<and> \<not> dueForReview demoDue demoP2 \<and> latestIncorrect demoAttempts demoP2"
    by code_simp
  from C7_review_session [OF col iso, where allProblems = demoProblems and dueReviews = demoDue
      and maxCount = 2]
  have "(0::int) \<le> 2 \<longrightarrow>
      int (length (pickReviewSession codePointCompare demoProblems demoAttempts demoDue (Some 2)))
        \<le> 2"
    by blast
  then have "int (length (pickReviewSession codePointCompare demoProblems demoAttempts demoDue
      (Some 2))) \<le> 2"
    by simp
  with col iso v d f show ?thesis by simp
qed

subsection \<open>The recommendations\<close>

lemma Math_ceil_div60: "Math_ceil (of_int a / 60) = (a + 59) div 60"
proof -
  have "Math_ceil (of_int a / 60) = \<lceil>(of_int a :: rat) / of_int 60\<rceil>"
    by (simp add: Math_ceil_def)
  also have "\<dots> = - (- a div 60)" by (rule ceiling_divide_eq_div)
  also have "\<dots> = (a + 59) div 60" by linarith
  finally show ?thesis .
qed

text \<open>The review card, when there is one, comes first; no later card is a review card.\<close>

lemma generateRecommendations_split:
  "\<exists>rest. generateRecommendations dateValue now allProblems latestAttempts dueReviews
      = (if 0 < liveDueCount dateValue now dueReviews
         then [reviewCard (liveDueCount dateValue now dueReviews)] else []) @ rest
     \<and> filter (\<lambda>r. rec_type r = TypeReview) rest = []"
proof -
  define speedPart where "speedPart =
    (let slowCount = int (length (filter
           (\<lambda>p. case map_of latestAttempts (Problem_id p) of
                  None \<Rightarrow> False
                | Some a \<Rightarrow> isCorrect a \<and> timeMs a > targetTimeForCategory (Problem_category p) * 1000)
           allProblems))
     in if slowCount > 0
        then [\<lparr>title = SpeedTitle (min slowCount 3), reason = SlowReason, rec_type = TypeSpeed,
               estimatedMinutes = Math_ceil (of_int (min slowCount 3 * 45) / 60),
               rec_category = None\<rparr>]
        else [])"
  define weakPart where "weakPart =
    (case findWorst (tallyCategories allProblems latestAttempts []) None of
       None \<Rightarrow> []
     | Some (category, accuracy) \<Rightarrow>
         if accuracy < 7 / 10
         then
           let catInfo = (case category of Table \<Rightarrow> LabelTable | Bar \<Rightarrow> LabelBar
                          | Pie \<Rightarrow> LabelPie | Composite \<Rightarrow> LabelComposite)
           in [\<lparr>title = CategoryWeakTitle catInfo,
                reason = AccuracyReason catInfo (Math_round (accuracy * 100)),
                rec_type = TypeCategoryWeak, estimatedMinutes = 3,
                rec_category = Some category\<rparr>]
         else [])"
  have eq: "generateRecommendations dateValue now allProblems latestAttempts dueReviews
      = (if 0 < liveDueCount dateValue now dueReviews
         then [reviewCard (liveDueCount dateValue now dueReviews)] else []) @ (speedPart @ weakPart)"
    by (simp add: generateRecommendations_def Let_def reviewCard_def liveDueCount_def
        speedPart_def weakPart_def split: option.split prod.split)
  have s: "filter (\<lambda>r. rec_type r = TypeReview) speedPart = []"
    by (simp add: speedPart_def Let_def)
  have w: "filter (\<lambda>r. rec_type r = TypeReview) weakPart = []"
    by (simp add: weakPart_def Let_def split: option.split prod.split)
  from s w have "filter (\<lambda>r. rec_type r = TypeReview) (speedPart @ weakPart) = []" by simp
  with eq show ?thesis by (intro exI [of _ "speedPart @ weakPart"] conjI)
qed

text \<open>
  Claim C9. \<open>generateRecommendations\<close> emits a review-drill card if and only if
  the number of entries of \<open>dueReviews\<close> that are due at the current time is
  positive; membership in \<open>dueReviews\<close> alone does not count. The card is then
  the first one and the only review card; it proposes \<open>min dueCount 5\<close>
  questions, and its estimated minutes are the ceiling of \<open>dueCount * 50 / 60\<close>.
\<close>

theorem C9_review_card:
  "((\<exists>r. r \<in> set (generateRecommendations dateValue now allProblems latestAttempts dueReviews)
        \<and> rec_type r = TypeReview)
      = (0 < liveDueCount dateValue now dueReviews))
   \<and> (0 < liveDueCount dateValue now dueReviews \<longrightarrow>
        hd (generateRecommendations dateValue now allProblems latestAttempts dueReviews)
          = reviewCard (liveDueCount dateValue now dueReviews)
        \<and> filter (\<lambda>r. rec_type r = TypeReview)
            (generateRecommendations dateValue now allProblems latestAttempts dueReviews)
          = [reviewCard (liveDueCount dateValue now dueReviews)])
   \<and> title (reviewCard n) = ReviewDrillTitle (min n 5)
   \<and> rec_type (reviewCard n) = TypeReview
   \<and> estimatedMinutes (reviewCard n) = \<lceil>(of_int (n * 50) :: rat) / 60\<rceil>
   \<and> estimatedMinutes (reviewCard n) = (n * 50 + 59) div 60"
proof -
  let ?recs = "generateRecommendations dateValue now allProblems latestAttempts dueReviews"
  let ?n = "liveDueCount dateValue now dueReviews"
  obtain rest where eq: "?recs = (if 0 < ?n then [reviewCard ?n] else []) @ rest"
    and rest: "filter (\<lambda>r. rec_type r = TypeReview) rest = []"
    using generateRecommendations_split by blast
  have ty: "rec_type (reviewCard k) = TypeReview" for k by (simp add: reviewCard_def)
  have f: "filter (\<lambda>r. rec_type r = TypeReview) ?recs = (if 0 < ?n then [reviewCard ?n] else [])"
    by (simp add: eq rest ty)
  have "(\<exists>r. r \<in> set ?recs \<and> rec_type r = TypeReview)
      = (filter (\<lambda>r. rec_type r = TypeReview) ?recs \<noteq> [])"
    by (auto simp: filter_empty_conv)
  also have "\<dots> = (0 < ?n)" by (simp add: f)
  finally have iff: "(\<exists>r. r \<in> set ?recs \<and> rec_type r = TypeReview) = (0 < ?n)" .
  have card: "0 < ?n \<longrightarrow> hd ?recs = reviewCard ?n
      \<and> filter (\<lambda>r. rec_type r = TypeReview) ?recs = [reviewCard ?n]"
  proof
    assume pos: "0 < ?n"
    then have "hd ?recs = reviewCard ?n" by (simp add: eq)
    moreover from pos have "filter (\<lambda>r. rec_type r = TypeReview) ?recs = [reviewCard ?n]"
      by (simp add: f)
    ultimately show "hd ?recs = reviewCard ?n
      \<and> filter (\<lambda>r. rec_type r = TypeReview) ?recs = [reviewCard ?n]" by (rule conjI)
  qed
  have t: "title (reviewCard n) = ReviewDrillTitle (min n 5)" by (simp add: reviewCard_def)
  have m1: "estimatedMinutes (reviewCard n) = \<lceil>(of_int (n * 50) :: rat) / 60\<rceil>"
    by (simp add: reviewCard_def Math_ceil_def)
  have m2: "estimatedMinutes (reviewCard n) = (n * 50 + 59) div 60"
  proof -
    have "estimatedMinutes (reviewCard n) = Math_ceil (of_int (n * 50) / 60)"
      by (simp only: reviewCard_def Recommendation.select_convs)
    then show ?thesis by (simp only: Math_ceil_div60)
  qed
  show ?thesis by (intro conjI iff card t ty m1 m2)
qed

theorem C9_review_card_witness:
  "length demoDue = 2
   \<and> liveDueCount demoDateValue 1714800000000 demoDue = 1
   \<and> hd (generateRecommendations demoDateValue 1714800000000 demoProblems demoAttempts demoDue)
       = reviewCard 1
   \<and> liveDueCount demoDateValue 1714700000000 demoDue = 0
   \<and> \<not> (\<exists>r. r \<in> set (generateRecommendations demoDateValue 1714700000000 demoProblems
                 demoAttempts demoDue) \<and> rec_type r = TypeReview)
   \<and> title (reviewCard 7) = ReviewDrillTitle 5
   \<and> estimatedMinutes (reviewCard 7) = 6"
proof -
  have l: "length demoDue = 2" by code_simp
  have one: "liveDueCount demoDateValue 1714800000000 demoDue = 1" by code_simp
  have zero: "liveDueCount demoDateValue 1714700000000 demoDue = 0" by code_simp
  from C9_review_card [of demoDateValue 1714800000000 demoProblems demoAttempts demoDue 7]
  have "0 < liveDueCount demoDateValue 1714800000000 demoDue \<longrightarrow>
      hd (generateRecommendations demoDateValue 1714800000000 demoProblems demoAttempts demoDue)
        = reviewCard (liveDueCount demoDateValue 1714800000000 demoDue)"
    and t: "title (reviewCard 7) = ReviewDrillTitle (min 7 5)"
    and m: "estimatedMinutes (reviewCard 7) = (7 * 50 + 59) div 60"
    by blast+
  with one have h: "hd (generateRecommendations demoDateValue 1714800000000 demoProblems
      demoAttempts demoDue) = reviewCard 1" by simp
  from C9_review_card [of demoDateValue 1714700000000 demoProblems demoAttempts demoDue 7]
  have "(\<exists>r. r \<in> set (generateRecommendations demoDateValue 1714700000000 demoProblems
          demoAttempts demoDue) \<and> rec_type r = TypeReview)
      = (0 < liveDueCount demoDateValue 1714700000000 demoDue)"
    by blast
  with zero have n: "\<not> (\<exists>r. r \<in> set (generateRecommendations demoDateValue 1714700000000
      demoProblems demoAttempts demoDue) \<and> rec_type r = TypeReview)" by simp
  from t have t': "title (reviewCard 7) = ReviewDrillTitle 5" by simp
  from m have m': "estimatedMinutes (reviewCard 7) = 6" by simp
  show ?thesis by (intro conjI l one h zero n t' m')
qed


end
